theory Spec2Isabelle
  imports Main "HOL-Library.Word" "HOL-Library.AList"
begin

section \<open>Data model of the telephony WebSocket client (telephony/go/client.go)\<close>

text \<open>
  JSON values as Go's \<open>encoding/json\<close> decodes them into \<open>interface{}\<close>; a frame is a
  \<open>map[string]interface{}\<close>, that is a partial map from field names to values. A nil map
  reads like the empty map.
\<close>

datatype jvalue =
    JNull
  | JBool bool
  | JNumber int
  | JString string
  | JArray "jvalue list"
  | JObject "string \<Rightarrow> jvalue option"

type_synonym jobj = "string \<Rightarrow> jvalue option"

text \<open>The type assertions \<open>v, _ := m[k].(string)\<close> and \<open>v, _ := m[k].(bool)\<close>: the zero
  value when the field is absent or of another type.\<close>

definition str_field :: "jobj \<Rightarrow> string \<Rightarrow> string" where
  "str_field m k = (case m k of Some (JString v) \<Rightarrow> v | _ \<Rightarrow> '''')"

definition bool_field :: "jobj \<Rightarrow> string \<Rightarrow> bool" where
  "bool_field m k = (case m k of Some (JBool b) \<Rightarrow> b | _ \<Rightarrow> False)"

text \<open>The struct \<open>Call\<close>.\<close>

record Call =
  CallID :: string
  State :: string
  Direction :: string
  From :: string
  To :: string
  Channel :: string
  UID :: string
  AppID :: string

text \<open>The interface \<open>EventHandler\<close>, as far as the client depends on it: what
  \<open>OnCallIncoming\<close> returns for the call it is shown, and whether the value also implements
  \<open>DTMFHandler\<close>. The other callbacks return nothing.\<close>

record handler =
  claim :: "Call \<Rightarrow> bool"
  implementsDTMF :: bool

text \<open>Callbacks invoked on the handler, with the address of the \<open>*Call\<close> passed.\<close>

datatype callback =
    OnConnected string
  | OnCallIncoming nat
  | OnCallRinging nat
  | OnCallAnswered nat
  | OnBridgeStart nat
  | OnBridgeEnd nat
  | OnCallHangup nat
  | OnDTMFReceived nat string
  | OnError

text \<open>Writes to the map \<open>c.calls\<close>: \<open>c.calls[k] = v\<close> and \<open>delete(c.calls, k)\<close>.\<close>

datatype reg_op = RegInsert string | RegDelete string

datatype error =
    NotConnected
  | SendFailed
  | ConnectionLost
  | ContextDone
  | CommandTimeout
  | ServerError string
  | TransportError string
  | CloseOfClosedChannel

text \<open>
  The struct \<open>Client\<close>. \<open>calls\<close> is a \<open>map[string]*Call\<close>: the registry holds addresses,
  and the \<open>Call\<close> objects live in \<open>heap\<close> (\<open>next_addr\<close> is the next address \<open>&Call{...}\<close>
  returns), so that one object reached through two keys is one object. \<open>pending\<close> is the
  map from request id to reply channel, kept as an association list with distinct keys;
  \<open>chans\<close> gives the buffer of each channel made by \<open>make(chan ..., 1)\<close>. \<open>nextReqID\<close> is the
  \<open>atomic.Uint64\<close>. \<open>done_closed\<close> says whether the channel \<open>done\<close> is closed.

  The last five fields record what the client did to its surroundings: the frames handed to
  \<open>conn.WriteJSON\<close> by \<open>sendCommand\<close>, the handler callbacks, the writes to \<open>c.calls\<close>, the
  number of \<open>close(c.done)\<close> executed, and the connections on which \<open>Close()\<close> was called.
\<close>

record Client =
  wsURL :: string
  authToken :: string
  clientID :: string
  appID :: string
  conn :: "nat option"
  calls :: "string \<Rightarrow> nat option"
  heap :: "nat \<Rightarrow> Call"
  next_addr :: nat
  handler :: "handler option"
  connected :: bool
  done_closed :: bool
  pending :: "(string \<times> nat) list"
  chans :: "nat \<Rightarrow> jobj option list"
  next_chan :: nat
  nextReqID :: "64 word"
  frames :: "jobj list"
  callbacks :: "callback list"
  reg_ops :: "reg_op list"
  done_closes :: nat
  closed_conns :: "nat list"




definition zero_Call :: Call where
  "zero_Call = \<lparr>CallID = '''', State = '''', Direction = '''', From = '''', To = '''',
     Channel = '''', UID = '''', AppID = ''''\<rparr>"

definition NewClient :: "string \<Rightarrow> string \<Rightarrow> string \<Rightarrow> string \<Rightarrow> Client" where
  "NewClient url tok cid app =
     \<lparr>wsURL = url, authToken = tok, clientID = cid, appID = app, conn = None,
      calls = Map.empty, heap = (\<lambda>_. zero_Call), next_addr = 0, handler = None,
      connected = False, done_closed = False, pending = [], chans = (\<lambda>_. []),
      next_chan = 0, nextReqID = 0, frames = [], callbacks = [], reg_ops = [],
      done_closes = 0, closed_conns = []\<rparr>"

definition SetHandler :: "handler option \<Rightarrow> Client \<Rightarrow> Client" where
  "SetHandler h c = c\<lparr>handler := h\<rparr>"

subsection \<open>The registry: the statements of the source on \<open>c.calls\<close> and on a \<open>*Call\<close>\<close>

definition reg_insert :: "string \<Rightarrow> nat \<Rightarrow> Client \<Rightarrow> Client" where
  "reg_insert k p c = c\<lparr>calls := (calls c)(k \<mapsto> p), reg_ops := reg_ops c @ [RegInsert k]\<rparr>"

definition reg_delete :: "string \<Rightarrow> Client \<Rightarrow> Client" where
  "reg_delete k c = c\<lparr>calls := (calls c)(k := None), reg_ops := reg_ops c @ [RegDelete k]\<rparr>"

definition new_Call :: "Call \<Rightarrow> Client \<Rightarrow> nat \<times> Client" where
  "new_Call v c = (next_addr c, c\<lparr>heap := (heap c)(next_addr c := v), next_addr := Suc (next_addr c)\<rparr>)"

definition upd_Call :: "nat \<Rightarrow> (Call \<Rightarrow> Call) \<Rightarrow> Client \<Rightarrow> Client" where
  "upd_Call p f c = c\<lparr>heap := (heap c)(p := f (heap c p))\<rparr>"

subsection \<open>\<open>handleEvent\<close>\<close>

text \<open>
  Lines 746-758: the lookup by call id, then by \<open>channel + ":" + uid\<close>, then the creation
  of a record under the call id.
\<close>

definition find_call :: "string \<Rightarrow> string \<Rightarrow> string \<Rightarrow> Client \<Rightarrow> nat option \<times> Client" where
  "find_call callid channel uid c =
     (let call = calls c callid;
          call = (if call = None \<and> channel \<noteq> '''' \<and> uid \<noteq> ''''
                  then calls c (channel @ '':'' @ uid) else call)
      in if call = None \<and> callid \<noteq> ''''
         then (let (p, c1) = new_Call (zero_Call\<lparr>CallID := callid, Channel := channel, UID := uid\<rparr>) c
               in (Some p, reg_insert callid p c1))
         else (call, c))"

text \<open>Lines 766-786: the non-empty fields of the event are written into the record.\<close>

definition merge_fields :: "jobj \<Rightarrow> string \<Rightarrow> string \<Rightarrow> string \<Rightarrow> Call \<Rightarrow> Call" where
  "merge_fields msg callid channel uid call =
     (let call = (if channel \<noteq> '''' then call\<lparr>Channel := channel\<rparr> else call);
          call = (if uid \<noteq> '''' then call\<lparr>UID := uid\<rparr> else call);
          call = (if callid \<noteq> '''' then call\<lparr>CallID := callid\<rparr> else call);
          call = (if str_field msg ''from'' \<noteq> ''''
                  then call\<lparr>From := str_field msg ''from''\<rparr> else call);
          call = (if str_field msg ''to'' \<noteq> ''''
                  then call\<lparr>To := str_field msg ''to''\<rparr> else call);
          call = (if str_field msg ''direction'' \<noteq> ''''
                  then call\<lparr>Direction := str_field msg ''direction''\<rparr> else call);
          call = (if str_field msg ''appid'' \<noteq> ''''
                  then call\<lparr>AppID := str_field msg ''appid''\<rparr> else call)
      in call)"

text \<open>
  Lines 739-787: the fields of the event are read, and the record is looked up and updated
  in one critical section of \<open>c.mu\<close>. The result is the address of the record that the
  rest of \<open>handleEvent\<close> works with (its local \<open>call\<close>), or \<open>None\<close> where the function
  returns.
\<close>

definition handleEvent_lookup :: "jobj \<Rightarrow> Client \<Rightarrow> nat option \<times> Client" where
  "handleEvent_lookup msg c =
     (let callid = str_field msg ''callid'';
          channel = str_field msg ''channel'';
          uid = str_field msg ''uid'';
          (call, c1) = find_call callid channel uid c
      in case call of
           None \<Rightarrow> (None, c1)
         | Some p \<Rightarrow> (Some p, upd_Call p (merge_fields msg callid channel uid) c1))"

text \<open>
  Lines 790-836, the switch on the event type. Each case takes the lock again for its own
  critical section (\<open>switch_section\<close>: lines 792-795, 803-805, 808-810, 813-815, 818-820 and
  823-829) and then calls the handler without the lock (\<open>switch_callback\<close>: lines 796, 806,
  811, 816, 821, 830 and 832-835). The callback is logged where the source invokes it;
  \<open>OnCallIncoming\<close> is shown the record as it is at that moment, and what it returns is the
  first component (\<open>True\<close> for the callbacks that return nothing). After a refusal the key of
  the call id is deleted in a further critical section (lines 797-801).
\<close>

definition notify :: "callback \<Rightarrow> Client \<Rightarrow> Client" where
  "notify cb c = c\<lparr>callbacks := callbacks c @ [cb]\<rparr>"

definition switch_section :: "string \<Rightarrow> string \<Rightarrow> nat \<Rightarrow> Client \<Rightarrow> Client" where
  "switch_section eventType callid p c =
     (if eventType = ''call_incoming'' then
        upd_Call p (\<lambda>call. call\<lparr>State := ''incoming'', Direction := ''inbound''\<rparr>) c
      else if eventType = ''call_ringing'' then
        upd_Call p (\<lambda>call. call\<lparr>State := ''ringing''\<rparr>) c
      else if eventType = ''call_answered'' then
        upd_Call p (\<lambda>call. call\<lparr>State := ''answered''\<rparr>) c
      else if eventType = ''agora_bridge_start'' then
        upd_Call p (\<lambda>call. call\<lparr>State := ''bridged''\<rparr>) c
      else if eventType = ''agora_bridge_end'' then
        upd_Call p (\<lambda>call. call\<lparr>State := ''unbridged''\<rparr>) c
      else if eventType = ''call_hangup'' then
        (let c1 = upd_Call p (\<lambda>call. call\<lparr>State := ''hangup''\<rparr>) c;
             c2 = reg_delete callid c1
         in if Channel (heap c2 p) \<noteq> '''' \<and> UID (heap c2 p) \<noteq> ''''
            then reg_delete (Channel (heap c2 p) @ '':'' @ UID (heap c2 p)) c2 else c2)
      else c)"

definition switch_callback :: "handler \<Rightarrow> jobj \<Rightarrow> string \<Rightarrow> nat \<Rightarrow> Client \<Rightarrow> bool \<times> Client" where
  "switch_callback h msg eventType p c =
     (if eventType = ''call_incoming'' then (claim h (heap c p), notify (OnCallIncoming p) c)
      else if eventType = ''call_ringing'' then (True, notify (OnCallRinging p) c)
      else if eventType = ''call_answered'' then (True, notify (OnCallAnswered p) c)
      else if eventType = ''agora_bridge_start'' then (True, notify (OnBridgeStart p) c)
      else if eventType = ''agora_bridge_end'' then (True, notify (OnBridgeEnd p) c)
      else if eventType = ''call_hangup'' then (True, notify (OnCallHangup p) c)
      else if eventType = ''dtmf_received'' then
        (True, if implementsDTMF h then notify (OnDTMFReceived p (str_field msg ''digits'')) c
               else c)
      else (True, c))"

text \<open>The switch run from its head to its end without another goroutine in between.\<close>

definition dispatch :: "handler \<Rightarrow> jobj \<Rightarrow> string \<Rightarrow> string \<Rightarrow> nat \<Rightarrow> Client \<Rightarrow> Client" where
  "dispatch h msg eventType callid p c =
     (let c1 = switch_section eventType callid p c;
          (claimed, c2) = switch_callback h msg eventType p c1
      in if \<not> claimed then reg_delete callid c2 else c2)"

text \<open>
  \<open>handleEvent\<close> run from line 734 to its return without another goroutine in between:
  the handler is fetched (\<open>getHandler\<close>, under the read lock), and the function returns at
  once when there is none.
\<close>

definition handleEvent :: "jobj \<Rightarrow> Client \<Rightarrow> Client" where
  "handleEvent msg c =
     (case handler c of
        None \<Rightarrow> c
      | Some h \<Rightarrow>
          (case handleEvent_lookup msg c of
             (None, c1) \<Rightarrow> c1
           | (Some p, c1) \<Rightarrow>
               dispatch h msg (str_field msg ''event'') (str_field msg ''callid'') p c1))"

subsection \<open>Reply channels and the pending table\<close>

text \<open>
  \<open>make(chan map[string]interface{}, 1)\<close> gives a new channel with an empty buffer of
  capacity 1. A send blocks while the buffer is full (\<open>None\<close>: the sender does not proceed),
  the \<open>select\<close> with a \<open>default\<close> branch skips the send instead, and a receive blocks while
  the buffer is empty. The value \<open>None\<close> in a buffer is the nil map.
\<close>

definition make_chan :: "Client \<Rightarrow> nat \<times> Client" where
  "make_chan c =
     (next_chan c, c\<lparr>chans := (chans c)(next_chan c := []), next_chan := Suc (next_chan c)\<rparr>)"

definition chan_send :: "nat \<Rightarrow> jobj option \<Rightarrow> Client \<Rightarrow> Client option" where
  "chan_send ch v c =
     (if length (chans c ch) < 1 then Some (c\<lparr>chans := (chans c)(ch := chans c ch @ [v])\<rparr>)
      else None)"

definition chan_try_send :: "nat \<Rightarrow> jobj option \<Rightarrow> Client \<Rightarrow> Client" where
  "chan_try_send ch v c = (case chan_send ch v c of Some c' \<Rightarrow> c' | None \<Rightarrow> c)"

definition chan_recv :: "nat \<Rightarrow> Client \<Rightarrow> (jobj option \<times> Client) option" where
  "chan_recv ch c =
     (case chans c ch of [] \<Rightarrow> None | v # vs \<Rightarrow> Some (v, c\<lparr>chans := (chans c)(ch := vs)\<rparr>))"

definition pending_delete :: "string \<Rightarrow> Client \<Rightarrow> Client" where
  "pending_delete k c = c\<lparr>pending := AList.delete k (pending c)\<rparr>"

text \<open>\<open>fmt.Sprintf("%d", n)\<close> for an unsigned number.\<close>

definition digit :: "nat \<Rightarrow> char" where
  "digit n = ''0123456789'' ! n"

fun decimal :: "nat \<Rightarrow> string" where
  "decimal n = (if n < 10 then [digit n] else decimal (n div 10) @ [digit (n mod 10)])"

declare decimal.simps [simp del]

text \<open>\<open>fmt.Sprintf("%s_%d", action, n)\<close> for the \<open>uint64\<close> that \<open>c.nextReqID.Add(1)\<close> returns.\<close>

definition format_reqID :: "string \<Rightarrow> 64 word \<Rightarrow> string" where
  "format_reqID action n = action @ ''_'' @ decimal (unat n)"

subsection \<open>\<open>sendCommand\<close>\<close>

text \<open>
  Lines 684-709: the connection checks, the request id from the counter, the installation
  of the reply channel and the write. \<open>write_ok\<close> says whether \<open>conn.WriteJSON\<close> succeeds.
  The result is the error returned, or the request id and the channel the caller waits on.
\<close>

definition sendCommand_issue ::
  "string \<Rightarrow> jobj \<Rightarrow> bool \<Rightarrow> Client \<Rightarrow> (error + string \<times> nat) \<times> Client" where
  "sendCommand_issue action msg write_ok c =
     (if \<not> connected c then (Inl NotConnected, c)
      else case conn c of
        None \<Rightarrow> (Inl NotConnected, c)
      | Some cn \<Rightarrow>
          (let n = nextReqID c + 1;
               reqID = format_reqID action n;
               msg = msg(''request_id'' \<mapsto> JString reqID);
               (respCh, c1) = make_chan (c\<lparr>nextReqID := n\<rparr>);
               c2 = c1\<lparr>pending := AList.update reqID respCh (pending c1)\<rparr>;
               c3 = c2\<lparr>frames := frames c2 @ [msg]\<rparr>
           in if \<not> write_ok then (Inl SendFailed, pending_delete reqID c3)
              else (Inr (reqID, respCh), c3)))"

text \<open>
  Lines 714-730: the \<open>select\<close> of the waiting caller, for the case that is taken. The
  receive case is ready only when the channel holds a value (\<open>None\<close> otherwise).
\<close>

datatype select_case = RecvResp | CtxDone | DeadlineFired

definition sendCommand_select ::
  "string \<Rightarrow> nat \<Rightarrow> select_case \<Rightarrow> Client \<Rightarrow> ((error + jobj option) \<times> Client) option" where
  "sendCommand_select reqID respCh sel c =
     (case sel of
        RecvResp \<Rightarrow>
          (case chan_recv respCh c of
             None \<Rightarrow> None
           | Some (resp, c1) \<Rightarrow>
               Some (case resp of None \<Rightarrow> Inl ConnectionLost | Some r \<Rightarrow> Inr (Some r), c1))
      | CtxDone \<Rightarrow> Some (Inl ContextDone, pending_delete reqID c)
      | DeadlineFired \<Rightarrow> Some (Inl CommandTimeout, pending_delete reqID c))"

subsection \<open>The read loop\<close>

text \<open>
  Lines 664-670: the channel of the pending command that a message read from the connection
  answers, if there is one.
\<close>

definition pending_reply :: "jobj \<Rightarrow> Client \<Rightarrow> nat option" where
  "pending_reply parsed c =
     (if str_field parsed ''request_id'' \<noteq> ''''
      then map_of (pending c) (str_field parsed ''request_id'') else None)"

text \<open>
  Lines 668-673: the entry is removed from the table and the message is sent to its channel.
  The result \<open>None\<close> is the loop blocked in \<open>ch <- parsed\<close>.
\<close>

definition readLoop_deliver :: "jobj \<Rightarrow> nat \<Rightarrow> Client \<Rightarrow> Client option" where
  "readLoop_deliver parsed ch c =
     chan_send ch (Some parsed) (pending_delete (str_field parsed ''request_id'') c)"

text \<open>
  Lines 658-679, one message read and handled in one turn: an unparseable message (\<open>None\<close>)
  is skipped, a message whose \<open>request_id\<close> is pending is delivered, any other message is an
  event.
\<close>

definition readLoop_msg :: "jobj option \<Rightarrow> Client \<Rightarrow> Client option" where
  "readLoop_msg m c =
     (case m of
        None \<Rightarrow> Some c
      | Some parsed \<Rightarrow>
          (case pending_reply parsed c of
             Some ch \<Rightarrow> readLoop_deliver parsed ch c
           | None \<Rightarrow> Some (handleEvent parsed c)))"

text \<open>
  Lines 628-636 and 277-285: the loop over the pending table that sends nil to every channel
  without blocking and deletes the entry. Go visits the entries of a map in an order it does
  not specify; \<open>drain_entries\<close> takes the order, \<open>drain_pending\<close> uses that of the list.
\<close>

definition drain_entry :: "string \<times> nat \<Rightarrow> Client \<Rightarrow> Client" where
  "drain_entry e c = pending_delete (fst e) (chan_try_send (snd e) None c)"

definition drain_entries :: "(string \<times> nat) list \<Rightarrow> Client \<Rightarrow> Client" where
  "drain_entries es c = fold drain_entry es c"

definition drain_pending :: "Client \<Rightarrow> Client" where
  "drain_pending c = drain_entries (pending c) c"

text \<open>Lines 624-637: the deferred function of \<open>readLoop\<close>, run when the loop exits.\<close>

definition readLoop_exit :: "Client \<Rightarrow> Client" where
  "readLoop_exit c = drain_pending (c\<lparr>connected := False\<rparr>)"

subsection \<open>\<open>Connect\<close> and \<open>Close\<close>\<close>

text \<open>Lines 214-238, after a successful handshake on the new connection \<open>cn\<close>.\<close>

definition Connect_registered :: "nat \<Rightarrow> string \<Rightarrow> Client \<Rightarrow> Client" where
  "Connect_registered cn sessionID c =
     (let c1 = c\<lparr>conn := Some cn, connected := True\<rparr>
      in case handler c1 of None \<Rightarrow> c1 | Some h \<Rightarrow> notify (OnConnected sessionID) c1)"

text \<open>\<open>close(c.done)\<close> panics on a closed channel.\<close>

definition close_done :: "Client \<Rightarrow> error + Client" where
  "close_done c =
     (if done_closed c then Inl CloseOfClosedChannel
      else Inr (c\<lparr>done_closed := True, done_closes := Suc (done_closes c)\<rparr>))"

text \<open>
  Lines 268-296. \<open>conn_err\<close> is what \<open>conn.Close()\<close> returns when it is called. The result
  is \<open>Inl\<close> for a panic and \<open>Inr\<close> for the error returned (\<open>None\<close> is nil).
\<close>

definition Close :: "error option \<Rightarrow> Client \<Rightarrow> (error + error option) \<times> Client" where
  "Close conn_err c =
     (let c1 = c\<lparr>connected := False\<rparr>
      in case (if done_closed c1 then Inr c1 else close_done c1) of
           Inl e \<Rightarrow> (Inl e, c1)
         | Inr c2 \<Rightarrow>
             (let c3 = drain_pending c2;
                  cn = conn c3;
                  c4 = c3\<lparr>conn := None\<rparr>
              in case cn of
                   Some n \<Rightarrow> (Inr conn_err, c4\<lparr>closed_conns := closed_conns c4 @ [n]\<rparr>)
                 | None \<Rightarrow> (Inr None, c4)))"

text \<open>\<open>n\<close> successive calls, with what \<open>conn.Close()\<close> would return at each.\<close>

fun Close_all :: "error option list \<Rightarrow> Client \<Rightarrow> (error + error option) list \<times> Client" where
  "Close_all [] c = ([], c)"
| "Close_all (e # es) c =
     (let (r, c1) = Close e c; (rs, c2) = Close_all es c1 in (r # rs, c2))"

text \<open>Lines 646-656 with the deferred function: \<open>conn.ReadMessage\<close> returns an error.\<close>

definition readLoop_read_error :: "Client \<Rightarrow> Client" where
  "readLoop_read_error c =
     readLoop_exit
       (if connected c then (case handler c of None \<Rightarrow> c | Some h \<Rightarrow> notify OnError c) else c)"

subsection \<open>A command from issue to return\<close>

text \<open>
  What happens to a command after it is issued is decided outside the caller: the write
  fails, the read loop receives the reply (the frame \<open>r\<close> with the request id echoed), the
  read loop exits on a read error, the caller's context is cancelled, or the 30 s timer fires.
  \<open>sendCommand\<close> is the caller's run with that one event in between. Where nothing is
  delivered the timer is what ends the wait.
\<close>

datatype outcome = WriteFails | Reply jobj | ConnLost | Cancelled | TimedOut

definition sendCommand ::
  "string \<Rightarrow> jobj \<Rightarrow> outcome \<Rightarrow> Client \<Rightarrow> (error + jobj option) \<times> Client" where
  "sendCommand action msg oc c =
     (case sendCommand_issue action msg (case oc of WriteFails \<Rightarrow> False | _ \<Rightarrow> True) c of
        (Inl e, c1) \<Rightarrow> (Inl e, c1)
      | (Inr (reqID, respCh), c1) \<Rightarrow>
          (let c2 = (case oc of
                       Reply r \<Rightarrow>
                         (case readLoop_msg (Some (r(''request_id'' \<mapsto> JString reqID))) c1 of
                            Some c' \<Rightarrow> c' | None \<Rightarrow> c1)
                     | ConnLost \<Rightarrow> readLoop_read_error c1
                     | _ \<Rightarrow> c1);
               sel = (case oc of Cancelled \<Rightarrow> CtxDone | TimedOut \<Rightarrow> DeadlineFired | _ \<Rightarrow> RecvResp)
           in case sendCommand_select reqID respCh sel c2 of
                Some res \<Rightarrow> res
              | None \<Rightarrow> (Inl CommandTimeout, pending_delete reqID c2)))"

subsection \<open>\<open>Dial\<close>\<close>

record DialParams =
  To_p :: string
  From_p :: string
  Channel_p :: string
  UID_p :: string
  Token_p :: string
  Region_p :: string
  Timeout_p :: string
  Sip_p :: string
  SipDomain_p :: string
  AppID_p :: string

record DialResult =
  Success :: bool
  CallID_r :: string
  Data :: jobj

text \<open>Lines 300-318.\<close>

definition Dial_msg :: "DialParams \<Rightarrow> jobj" where
  "Dial_msg params =
     (let msg = [''action'' \<mapsto> JString ''outbound'', ''to'' \<mapsto> JString (To_p params),
                 ''from'' \<mapsto> JString (From_p params), ''channel'' \<mapsto> JString (Channel_p params),
                 ''uid'' \<mapsto> JString (UID_p params), ''token'' \<mapsto> JString (Token_p params),
                 ''region'' \<mapsto> JString (Region_p params), ''timeout'' \<mapsto> JString (Timeout_p params)];
          msg = (if Sip_p params \<noteq> '''' then msg(''sip'' \<mapsto> JString (Sip_p params)) else msg);
          msg = (if SipDomain_p params \<noteq> ''''
                 then msg(''sip_domain'' \<mapsto> JString (SipDomain_p params)) else msg);
          msg = (if AppID_p params \<noteq> '''' then msg(''appid'' \<mapsto> JString (AppID_p params)) else msg)
      in msg)"

definition chanKey :: "DialParams \<Rightarrow> string" where
  "chanKey params = Channel_p params @ '':'' @ UID_p params"

text \<open>Lines 320-332: the record tracked under \<open>channel:uid\<close> before the command is sent.\<close>

definition Dial_begin :: "DialParams \<Rightarrow> Client \<Rightarrow> Client" where
  "Dial_begin params c =
     (let (p, c1) = new_Call (zero_Call\<lparr>State := ''ringing'', Direction := ''outbound'',
                                To := To_p params, From := From_p params,
                                Channel := Channel_p params, UID := UID_p params,
                                AppID := AppID_p params\<rparr>) c
      in reg_insert (chanKey params) p c1)"

text \<open>Lines 359-366: the entry under \<open>channel:uid\<close>, if there is one, gets the call id and
  is stored under it.\<close>

definition Dial_promote :: "DialParams \<Rightarrow> string \<Rightarrow> Client \<Rightarrow> Client" where
  "Dial_promote params callid c =
     (if callid \<noteq> '''' then
        (case calls c (chanKey params) of
           Some p \<Rightarrow> reg_insert callid p (upd_Call p (\<lambda>call. call\<lparr>CallID := callid\<rparr>) c)
         | None \<Rightarrow> c)
      else c)"

text \<open>Lines 335-371: what \<open>Dial\<close> does with the result of \<open>sendCommand\<close>.\<close>

definition Dial_finish ::
  "DialParams \<Rightarrow> error + jobj option \<Rightarrow> Client \<Rightarrow> (error + DialResult) \<times> Client" where
  "Dial_finish params res c =
     (case res of
        Inl err \<Rightarrow> (Inl err, reg_delete (chanKey params) c)
      | Inr None \<Rightarrow> (Inl ConnectionLost, reg_delete (chanKey params) c)
      | Inr (Some resp) \<Rightarrow>
          (let result = \<lparr>Success = False, CallID_r = '''', Data = resp\<rparr>;
               result = (case resp ''data'' of
                           Some (JObject data) \<Rightarrow>
                             result\<lparr>Success := bool_field data ''success'',
                                    CallID_r := str_field data ''callid''\<rparr>
                         | _ \<Rightarrow> result)
           in (Inr result, reg_delete (chanKey params) (Dial_promote params (CallID_r result) c))))"

definition Dial :: "DialParams \<Rightarrow> outcome \<Rightarrow> Client \<Rightarrow> (error + DialResult) \<times> Client" where
  "Dial params oc c =
     (let c1 = Dial_begin params c;
          (res, c2) = sendCommand ''outbound'' (Dial_msg params) oc c1
      in Dial_finish params res c2)"

subsection \<open>\<open>Accept\<close> and \<open>Hangup\<close>\<close>

text \<open>The check every command makes on its reply: \<open>resp["error"].(string)\<close>.\<close>

definition reply_error :: "jobj \<Rightarrow> error option" where
  "reply_error resp = (case resp ''error'' of Some (JString errMsg) \<Rightarrow> Some (ServerError errMsg) | _ \<Rightarrow> None)"

record AcceptParams =
  Token_a :: string
  Channel_a :: string
  UID_a :: string
  AppID_a :: string
  WebhookURL_a :: string
  SDKOptions_a :: string
  AudioScenario_a :: string

text \<open>Lines 376-394.\<close>

definition Accept_msg :: "string \<Rightarrow> AcceptParams \<Rightarrow> jobj" where
  "Accept_msg callid creds =
     (let msg = [''action'' \<mapsto> JString ''accept'', ''callid'' \<mapsto> JString callid,
                 ''token'' \<mapsto> JString (Token_a creds), ''channel'' \<mapsto> JString (Channel_a creds),
                 ''uid'' \<mapsto> JString (UID_a creds)];
          msg = (if AppID_a creds \<noteq> '''' then msg(''appid'' \<mapsto> JString (AppID_a creds)) else msg);
          msg = (if WebhookURL_a creds \<noteq> ''''
                 then msg(''webhook_url'' \<mapsto> JString (WebhookURL_a creds)) else msg);
          msg = (if SDKOptions_a creds \<noteq> ''''
                 then msg(''sdk_options'' \<mapsto> JString (SDKOptions_a creds)) else msg);
          msg = (if AudioScenario_a creds \<noteq> ''''
                 then msg(''audio_scenario'' \<mapsto> JString (AudioScenario_a creds)) else msg)
      in msg)"

text \<open>Lines 397-415.\<close>

definition Accept_finish ::
  "string \<Rightarrow> AcceptParams \<Rightarrow> error + jobj option \<Rightarrow> Client \<Rightarrow> error option \<times> Client" where
  "Accept_finish callid creds res c =
     (case res of
        Inl err \<Rightarrow> (Some err, c)
      | Inr None \<Rightarrow> (Some ConnectionLost, c)
      | Inr (Some resp) \<Rightarrow>
          (case reply_error resp of
             Some err \<Rightarrow> (Some err, c)
           | None \<Rightarrow>
               (None,
                if AppID_a creds \<noteq> '''' then
                  (case calls c callid of
                     Some p \<Rightarrow> upd_Call p (\<lambda>call. call\<lparr>AppID := AppID_a creds\<rparr>) c
                   | None \<Rightarrow> c)
                else c)))"

definition Accept :: "string \<Rightarrow> AcceptParams \<Rightarrow> outcome \<Rightarrow> Client \<Rightarrow> error option \<times> Client" where
  "Accept callid creds oc c =
     (let (res, c1) = sendCommand ''accept'' (Accept_msg callid creds) oc c
      in Accept_finish callid creds res c1)"

text \<open>Lines 497-512: the action and the frame of \<open>Hangup\<close>.\<close>

definition Hangup_action :: "string \<Rightarrow> Client \<Rightarrow> string" where
  "Hangup_action callid c =
     (case calls c callid of
        Some p \<Rightarrow> if Direction (heap c p) = ''outbound'' then ''endcall'' else ''hangup''
      | None \<Rightarrow> ''hangup'')"

definition Hangup_msg :: "string \<Rightarrow> Client \<Rightarrow> jobj" where
  "Hangup_msg callid c =
     (let msg = [''action'' \<mapsto> JString (Hangup_action callid c), ''callid'' \<mapsto> JString callid]
      in case calls c callid of
           Some p \<Rightarrow> if AppID (heap c p) \<noteq> '''' then msg(''appid'' \<mapsto> JString (AppID (heap c p))) else msg
         | None \<Rightarrow> msg)"

text \<open>Lines 515-529.\<close>

definition Hangup_finish :: "string \<Rightarrow> error + jobj option \<Rightarrow> Client \<Rightarrow> error option \<times> Client" where
  "Hangup_finish callid res c =
     (case res of
        Inl err \<Rightarrow> (Some err, c)
      | Inr None \<Rightarrow> (Some ConnectionLost, c)
      | Inr (Some resp) \<Rightarrow>
          (case reply_error resp of
             Some err \<Rightarrow> (Some err, c)
           | None \<Rightarrow> (None, reg_delete callid c)))"

definition Hangup :: "string \<Rightarrow> outcome \<Rightarrow> Client \<Rightarrow> error option \<times> Client" where
  "Hangup callid oc c =
     (let (res, c1) = sendCommand (Hangup_action callid c) (Hangup_msg callid c) oc c
      in Hangup_finish callid res c1)"

subsection \<open>The states a client goes through\<close>

text \<open>
  A client starts as \<open>NewClient\<close> returns it. Its goroutines (the callers of the command
  methods, the read loop of each connection) take turns; a turn is one of the pieces above,
  which the source runs under a lock or on one goroutine. Every piece that writes the
  registry or a record is one critical section of \<open>c.mu\<close>. \<open>handleEvent\<close> is several
  pieces, and between two of them any other goroutine may take its turns: what a run of
  \<open>handleEvent\<close> that has not yet returned carries on with is kept beside the client.
\<close>

datatype in_flight =
    Event jobj
  | Handling handler jobj
  | Found handler jobj nat
  | Updated handler jobj nat
  | Declined jobj

text \<open>
  \<open>Event msg\<close> is a message that the read loop has found not to answer a pending command
  (lines 664-676) and passes to \<open>handleEvent\<close>; \<open>Handling h msg\<close> is the run after it has
  fetched the handler (line 734); \<open>Found h msg call\<close> the run after the critical section of
  lines 745-787; \<open>Updated h msg call\<close> the run after the critical section of its case, before
  it calls the handler; and \<open>Declined msg\<close> the run whose \<open>OnCallIncoming\<close> has returned
  false. A run that returns is dropped. A handler does not call back into the client during
  its callback.
\<close>

inductive running :: "in_flight list \<Rightarrow> Client \<Rightarrow> bool" where
  run_new: "running [] (NewClient url tok cid app)"
| run_handler: "running l c \<Longrightarrow> running l (SetHandler h c)"
| run_connect: "running l c \<Longrightarrow> running l (Connect_registered cn sid c)"
| run_close: "running l c \<Longrightarrow> running l (snd (Close e c))"
| run_read_error: "running l c \<Longrightarrow> running l (readLoop_read_error c)"
| run_read_exit: "running l c \<Longrightarrow> running l (readLoop_exit c)"
| run_deliver: "running l c \<Longrightarrow> pending_reply parsed c = Some ch \<Longrightarrow>
     readLoop_deliver parsed ch c = Some c' \<Longrightarrow> running l c'"
| run_event: "running l c \<Longrightarrow> pending_reply msg c = None \<Longrightarrow> running (Event msg # l) c"
| run_fetch: "running (l1 @ Event msg # l2) c \<Longrightarrow>
     running (l1 @ (case handler c of None \<Rightarrow> [] | Some h \<Rightarrow> [Handling h msg]) @ l2) c"
| run_lookup: "running (l1 @ Handling h msg # l2) c \<Longrightarrow> handleEvent_lookup msg c = (r, c') \<Longrightarrow>
     running (l1 @ (case r of None \<Rightarrow> [] | Some p \<Rightarrow> [Found h msg p]) @ l2) c'"
| run_section: "running (l1 @ Found h msg p # l2) c \<Longrightarrow>
     running (l1 @ Updated h msg p # l2)
       (switch_section (str_field msg ''event'') (str_field msg ''callid'') p c)"
| run_callback: "running (l1 @ Updated h msg p # l2) c \<Longrightarrow>
     switch_callback h msg (str_field msg ''event'') p c = (claimed, c') \<Longrightarrow>
     running (l1 @ (if claimed then [] else [Declined msg]) @ l2) c'"
| run_decline: "running (l1 @ Declined msg # l2) c \<Longrightarrow>
     running (l1 @ l2) (reg_delete (str_field msg ''callid'') c)"
| run_issue: "running l c \<Longrightarrow> running l (snd (sendCommand_issue action msg ok c))"
| run_select: "running l c \<Longrightarrow> sendCommand_select reqID ch sel c = Some (res, c') \<Longrightarrow>
     running l c'"
| run_dial_begin: "running l c \<Longrightarrow> running l (Dial_begin params c)"
| run_dial_finish: "running l c \<Longrightarrow> running l (snd (Dial_finish params res c))"
| run_accept_finish: "running l c \<Longrightarrow> running l (snd (Accept_finish callid creds res c))"
| run_hangup_finish: "running l c \<Longrightarrow> running l (snd (Hangup_finish callid res c))"

definition reachable :: "Client \<Rightarrow> bool" where
  "reachable c \<longleftrightarrow> (\<exists>l. running l c)"

subsection \<open>Properties of the states\<close>

text \<open>
  Every channel in the pending table is one the table alone refers to, was made by
  \<open>make\<close>, and has an empty buffer.
\<close>

definition pending_ok :: "Client \<Rightarrow> bool" where
  "pending_ok c \<longleftrightarrow>
     distinct (map snd (pending c)) \<and>
     (\<forall>e \<in> set (pending c). snd e < next_chan c \<and> chans c (snd e) = [])"


text \<open>The same, and no record of the registry is in state \<open>hangup\<close>.\<close>

definition registry_ok :: "Client \<Rightarrow> bool" where
  "registry_ok c \<longleftrightarrow>
     (\<forall>k p. calls c k = Some p \<longrightarrow> p < next_addr c \<and> State (heap c p) \<noteq> ''hangup'') \<and>
     (\<forall>k k' p. calls c k = Some p \<and> calls c k' = Some p \<longrightarrow> k = k')"


definition done_ok :: "Client \<Rightarrow> bool" where
  "done_ok c \<longleftrightarrow> done_closes c = (if done_closed c then 1 else 0)"

subsection \<open>Inputs used in the examples\<close>

definition decline_all :: handler where
  "decline_all = \<lparr>claim = (\<lambda>_. False), implementsDTMF = False\<rparr>"

definition fresh_client :: Client where
  "fresh_client = NewClient ''wss://cm.example/v1/ws/events'' ''Basic token'' ''client-1'' ''app-1''"

definition demo_client :: Client where
  "demo_client = Connect_registered 1 ''session-1'' (SetHandler (Some decline_all) fresh_client)"

definition demo_dial :: DialParams where
  "demo_dial = \<lparr>To_p = ''+18005551234'', From_p = ''+15551234567'', Channel_p = ''ch1'',
     UID_p = ''100'', Token_p = ''T'', Region_p = ''AREA_CODE_NA'', Timeout_p = ''30'',
     Sip_p = '''', SipDomain_p = '''', AppID_p = ''''\<rparr>"

definition dial_reply_C1 :: jobj where
  "dial_reply_C1 = [''data'' \<mapsto> JObject [''success'' \<mapsto> JBool True, ''callid'' \<mapsto> JString ''C1'']]"


definition incoming_C2 :: jobj where
  "incoming_C2 = [''event'' \<mapsto> JString ''call_incoming'', ''callid'' \<mapsto> JString ''C2'',
     ''from'' \<mapsto> JString ''+15551234567'', ''to'' \<mapsto> JString ''+18005551234'']"

definition hangup_C9 :: jobj where
  "hangup_C9 = [''event'' \<mapsto> JString ''call_hangup'', ''callid'' \<mapsto> JString ''C9'']"

definition hangup_C1 :: jobj where
  "hangup_C1 = [''event'' \<mapsto> JString ''call_hangup'', ''callid'' \<mapsto> JString ''C1'',
     ''channel'' \<mapsto> JString ''ch1'', ''uid'' \<mapsto> JString ''100'']"

definition ringing_sip :: jobj where
  "ringing_sip = [''event'' \<mapsto> JString ''call_ringing'', ''channel'' \<mapsto> JString ''ch1'',
     ''uid'' \<mapsto> JString ''100'', ''direction'' \<mapsto> JString ''outbound_sip'']"

definition answered_ch1 :: jobj where
  "answered_ch1 = [''event'' \<mapsto> JString ''call_answered'', ''channel'' \<mapsto> JString ''ch1'',
     ''uid'' \<mapsto> JString ''100'']"


text \<open>A connected client with two commands waiting for their replies.\<close>

definition two_waiters :: Client where
  "two_waiters =
     snd (sendCommand_issue ''reject''
            [''action'' \<mapsto> JString ''reject'', ''callid'' \<mapsto> JString ''C2'',
             ''reason'' \<mapsto> JString ''busy''] True
            (snd (sendCommand_issue ''outbound'' (Dial_msg demo_dial) True demo_client)))"

text \<open>A connected client after a successful \<open>Dial\<close>: the call \<open>C1\<close> is outbound.\<close>

definition outbound_call :: Client where
  "outbound_call = snd (Dial demo_dial (Reply dial_reply_C1) demo_client)"

text \<open>
  A \<open>Dial\<close> and a hangup event that overtake each other. \<open>Dial\<close> has tracked its record
  under \<open>ch1:100\<close> and written the frame \<open>outbound_1\<close>, and the read loop has put the reply,
  which carries the call id \<open>C1\<close>, into the channel of the command (\<open>dial_replied\<close>). The
  next message the read loop reads is a hangup event for the channel \<open>ch1\<close> and the uid
  \<open>100\<close> that carries no call id; \<open>handleEvent\<close> looks the record up and leaves its first
  critical section (\<open>hangup_found\<close>). Now \<open>Dial\<close> takes the reply out of its channel and
  completes (\<open>dial_returned\<close>), and only then \<open>handleEvent\<close> enters its switch
  (\<open>hangup_late\<close>).
\<close>

definition hangup_ch1 :: jobj where
  "hangup_ch1 = [''event'' \<mapsto> JString ''call_hangup'', ''channel'' \<mapsto> JString ''ch1'',
     ''uid'' \<mapsto> JString ''100'']"

definition dial_replied :: Client where
  "dial_replied =
     (let c1 = Dial_begin demo_dial demo_client;
          c2 = snd (sendCommand_issue ''outbound'' (Dial_msg demo_dial) True c1)
      in case readLoop_msg (Some (dial_reply_C1(''request_id'' \<mapsto> JString ''outbound_1''))) c2 of
           Some c3 \<Rightarrow> c3
         | None \<Rightarrow> c2)"

definition hangup_found :: "nat option \<times> Client" where
  "hangup_found = handleEvent_lookup hangup_ch1 dial_replied"

definition dial_returned :: Client where
  "dial_returned =
     (case sendCommand_select ''outbound_1'' 0 RecvResp (snd hangup_found) of
        Some (res, c) \<Rightarrow> snd (Dial_finish demo_dial res c)
      | None \<Rightarrow> snd hangup_found)"

definition hangup_late :: Client where
  "hangup_late =
     (case (handler dial_replied, fst hangup_found) of
        (Some h, Some p) \<Rightarrow>
          dispatch h hangup_ch1 (str_field hangup_ch1 ''event'') (str_field hangup_ch1 ''callid'') p
            dial_returned
      | _ \<Rightarrow> dial_returned)"


section \<open>Properties\<close>

subsection \<open>The operations run in one turn\<close>

text \<open>The switch, \<open>handleEvent\<close> and the handling of one message, written out.\<close>

lemma dispatch_eq:
  "dispatch h msg eventType callid p c =
     (if eventType = ''call_incoming'' then
        (let c1 = upd_Call p (\<lambda>call. call\<lparr>State := ''incoming'', Direction := ''inbound''\<rparr>) c;
             claimed = claim h (heap c1 p);
             c2 = notify (OnCallIncoming p) c1
         in if \<not> claimed then reg_delete callid c2 else c2)
      else if eventType = ''call_ringing'' then
        notify (OnCallRinging p) (upd_Call p (\<lambda>call. call\<lparr>State := ''ringing''\<rparr>) c)
      else if eventType = ''call_answered'' then
        notify (OnCallAnswered p) (upd_Call p (\<lambda>call. call\<lparr>State := ''answered''\<rparr>) c)
      else if eventType = ''agora_bridge_start'' then
        notify (OnBridgeStart p) (upd_Call p (\<lambda>call. call\<lparr>State := ''bridged''\<rparr>) c)
      else if eventType = ''agora_bridge_end'' then
        notify (OnBridgeEnd p) (upd_Call p (\<lambda>call. call\<lparr>State := ''unbridged''\<rparr>) c)
      else if eventType = ''call_hangup'' then
        (let c1 = upd_Call p (\<lambda>call. call\<lparr>State := ''hangup''\<rparr>) c;
             c2 = reg_delete callid c1;
             c3 = (if Channel (heap c2 p) \<noteq> '''' \<and> UID (heap c2 p) \<noteq> ''''
                   then reg_delete (Channel (heap c2 p) @ '':'' @ UID (heap c2 p)) c2 else c2)
         in notify (OnCallHangup p) c3)
      else if eventType = ''dtmf_received'' then
        (if implementsDTMF h then notify (OnDTMFReceived p (str_field msg ''digits'')) c else c)
      else c)"
  by (simp add: dispatch_def switch_section_def switch_callback_def Let_def)

lemma handleEvent_eq:
  "handleEvent msg c =
     (case handler c of
        None \<Rightarrow> c
      | Some h \<Rightarrow>
          (let eventType = str_field msg ''event'';
               callid = str_field msg ''callid'';
               channel = str_field msg ''channel'';
               uid = str_field msg ''uid'';
               (call, c1) = find_call callid channel uid c
           in case call of
                None \<Rightarrow> c1
              | Some p \<Rightarrow>
                  dispatch h msg eventType callid p
                    (upd_Call p (merge_fields msg callid channel uid) c1)))"
  by (simp add: handleEvent_def handleEvent_lookup_def Let_def split_beta split: option.split)

lemma readLoop_msg_eq:
  "readLoop_msg m c =
     (case m of
        None \<Rightarrow> Some c
      | Some parsed \<Rightarrow>
          (case (if str_field parsed ''request_id'' \<noteq> ''''
                 then map_of (pending c) (str_field parsed ''request_id'') else None) of
             Some ch \<Rightarrow> chan_send ch (Some parsed) (pending_delete (str_field parsed ''request_id'') c)
           | None \<Rightarrow> Some (handleEvent parsed c)))"
  by (simp add: readLoop_msg_def pending_reply_def readLoop_deliver_def split: option.split)

subsection \<open>The record an event is for\<close>

lemma merge_fields_eq:
  "merge_fields msg callid channel uid call =
     call\<lparr>Channel := (if channel \<noteq> '''' then channel else Channel call),
          UID := (if uid \<noteq> '''' then uid else UID call),
          CallID := (if callid \<noteq> '''' then callid else CallID call),
          From := (if str_field msg ''from'' \<noteq> '''' then str_field msg ''from'' else From call),
          To := (if str_field msg ''to'' \<noteq> '''' then str_field msg ''to'' else To call),
          Direction := (if str_field msg ''direction'' \<noteq> '''' then str_field msg ''direction'' else Direction call),
          AppID := (if str_field msg ''appid'' \<noteq> '''' then str_field msg ''appid'' else AppID call)\<rparr>"
  by (simp add: merge_fields_def Let_def)

lemma find_call_by_id:
  "calls c callid = Some p \<Longrightarrow> find_call callid channel uid c = (Some p, c)"
  by (simp add: find_call_def)

lemma find_call_by_chan:
  "calls c callid = None \<Longrightarrow> channel \<noteq> '''' \<Longrightarrow> uid \<noteq> '''' \<Longrightarrow>
   calls c (channel @ '':'' @ uid) = Some p \<Longrightarrow> find_call callid channel uid c = (Some p, c)"
  by (simp add: find_call_def)

lemma find_call_create:
  "calls c callid = None \<Longrightarrow>
   (channel \<noteq> '''' \<and> uid \<noteq> '''' \<longrightarrow> calls c (channel @ '':'' @ uid) = None) \<Longrightarrow>
   callid \<noteq> '''' \<Longrightarrow>
   find_call callid channel uid c =
     (Some (next_addr c),
      c\<lparr>calls := (calls c)(callid \<mapsto> next_addr c),
        heap := (heap c)(next_addr c := zero_Call\<lparr>CallID := callid, Channel := channel, UID := uid\<rparr>),
        next_addr := Suc (next_addr c),
        reg_ops := reg_ops c @ [RegInsert callid]\<rparr>)"
  by (auto simp add: find_call_def Let_def new_Call_def reg_insert_def)

lemma find_call_nothing:
  "calls c callid = None \<Longrightarrow>
   (channel \<noteq> '''' \<and> uid \<noteq> '''' \<longrightarrow> calls c (channel @ '':'' @ uid) = None) \<Longrightarrow>
   callid = '''' \<Longrightarrow> find_call callid channel uid c = (None, c)"
  by (auto simp add: find_call_def Let_def)

lemma dispatch_hangup:
  "dispatch h msg ''call_hangup'' callid p c =
     (let c2 = reg_delete callid (upd_Call p (\<lambda>call. call\<lparr>State := ''hangup''\<rparr>) c);
          c3 = (if Channel (heap c p) \<noteq> '''' \<and> UID (heap c p) \<noteq> ''''
                then reg_delete (Channel (heap c p) @ '':'' @ UID (heap c p)) c2 else c2)
      in notify (OnCallHangup p) c3)"
  by (simp add: dispatch_eq Let_def reg_delete_def upd_Call_def)

text \<open>
  \<^bold>\<open>C6\<close> (as the code has it). A \<open>call_hangup\<close> event whose call id is not in the registry
  and whose \<open>channel:uid\<close> matches no record leaves the registry and every existing record
  unchanged. With no handler or with an empty call id nothing happens at all; with a handler
  and a call id, the hangup callback is invoked once, with a record made for the event.
\<close>

theorem hangup_event_for_unknown_call:
  assumes ev: "str_field msg ''event'' = ''call_hangup''"
    and nocall: "calls c (str_field msg ''callid'') = None"
    and nochan: "str_field msg ''channel'' \<noteq> '''' \<and> str_field msg ''uid'' \<noteq> '''' \<longrightarrow>
                 calls c (str_field msg ''channel'' @ '':'' @ str_field msg ''uid'') = None"
  shows "calls (handleEvent msg c) = calls c \<and>
         (\<forall>p. p < next_addr c \<longrightarrow> heap (handleEvent msg c) p = heap c p) \<and>
         callbacks (handleEvent msg c) =
           (if handler c \<noteq> None \<and> str_field msg ''callid'' \<noteq> ''''
            then callbacks c @ [OnCallHangup (next_addr c)] else callbacks c) \<and>
         (handler c = None \<or> str_field msg ''callid'' = '''' \<longrightarrow> handleEvent msg c = c)"
proof (cases "handler c")
  case None
  then show ?thesis by (simp add: handleEvent_eq)
next
  case (Some h)
  show ?thesis
  proof (cases "str_field msg ''callid'' = ''''")
    case True
    have "find_call (str_field msg ''callid'') (str_field msg ''channel'') (str_field msg ''uid'') c = (None, c)"
      using nocall nochan True by (rule find_call_nothing)
    then show ?thesis using Some True by (simp add: handleEvent_eq)
  next
    case False
    note fc = find_call_create [OF nocall nochan False]
    have d1: "(calls c)(str_field msg ''callid'' := None) = calls c"
      using nocall by (rule fun_upd_idem)
    have d2: "str_field msg ''channel'' \<noteq> '''' \<Longrightarrow> str_field msg ''uid'' \<noteq> '''' \<Longrightarrow>
      (calls c)(str_field msg ''channel'' @ '':'' @ str_field msg ''uid'' := None) = calls c"
      using nochan by (simp add: fun_upd_idem)
    show ?thesis using Some False nochan
      by (simp add: handleEvent_eq fc ev dispatch_hangup merge_fields_eq Let_def
          upd_Call_def reg_delete_def notify_def zero_Call_def d1 fun_upd_idem_iff)
  qed
qed

subsection \<open>Events: no handler, the direction, declined incoming calls\<close>

lemma find_call_fst_None:
  "fst (find_call callid channel uid c) = None \<Longrightarrow>
     find_call callid channel uid c = (None, c) \<and> calls c callid = None"
  by (auto simp add: find_call_def Let_def split_beta split: if_splits)

lemma find_call_old_heap:
  "p < next_addr c \<Longrightarrow> heap (snd (find_call callid channel uid c)) p = heap c p"
  by (simp add: find_call_def Let_def new_Call_def reg_insert_def)


lemma find_call_handler: "handler (snd (find_call callid channel uid c)) = handler c"
  by (simp add: find_call_def Let_def new_Call_def reg_insert_def)

lemma dispatch_Direction:
  "Direction (heap (dispatch h msg e callid q c) p) =
     (if p = q \<and> e = ''call_incoming'' then ''inbound'' else Direction (heap c p))"
  by (simp add: dispatch_eq Let_def upd_Call_def notify_def reg_delete_def)

lemma handleEvent_Some:
  "handler c = Some h \<Longrightarrow>
   fst (find_call (str_field msg ''callid'') (str_field msg ''channel'') (str_field msg ''uid'') c) = Some q \<Longrightarrow>
   handleEvent msg c =
     dispatch h msg (str_field msg ''event'') (str_field msg ''callid'') q
       (upd_Call q (merge_fields msg (str_field msg ''callid'') (str_field msg ''channel'')
                      (str_field msg ''uid''))
          (snd (find_call (str_field msg ''callid'') (str_field msg ''channel'')
                  (str_field msg ''uid'') c)))"
  by (simp add: handleEvent_eq Let_def split_beta)

lemma handleEvent_None:
  "handler c = None \<or>
   fst (find_call (str_field msg ''callid'') (str_field msg ''channel'') (str_field msg ''uid'') c) = None \<Longrightarrow>
   handleEvent msg c = c"
  by (auto simp add: handleEvent_eq Let_def split_beta dest: find_call_fst_None split: option.split)

text \<open>
  \<^bold>\<open>C10.\<close> Without a handler \<open>handleEvent\<close> returns the client as it is, and a message
  read by the read loop changes neither the registry nor any record, and invokes no callback.
\<close>

theorem no_handler_no_registry_change:
  "handler c = None \<Longrightarrow>
     handleEvent msg c = c \<and>
     (\<forall>c'. readLoop_msg (Some msg) c = Some c' \<longrightarrow>
        calls c' = calls c \<and> heap c' = heap c \<and> next_addr c' = next_addr c \<and>
        reg_ops c' = reg_ops c \<and> callbacks c' = callbacks c)"
  by (auto simp add: handleEvent_None readLoop_msg_eq chan_send_def pending_delete_def
      split: option.splits if_splits)

text \<open>
  \<^bold>\<open>C5\<close> (as the code has it). The direction is \<open>outbound\<close> in a record made by \<open>Dial\<close>.
  Afterwards the completion of \<open>Dial\<close>, \<open>Accept\<close> and \<open>Hangup\<close> leave the direction of every
  record as it is, and so does every event for another record and every event that is not
  \<open>call_incoming\<close> and carries no direction. An event for the record sets its direction to
  \<open>inbound\<close> when it is \<open>call_incoming\<close>, and otherwise to the direction it carries, if any.
  In the record that the lookup makes for an event with an unknown call id the direction is
  empty (the last part of the statement).
\<close>

theorem direction_after_creation:
  "Direction (heap (Dial_begin params c) (next_addr c)) = ''outbound'' \<and>
   (p < next_addr c \<longrightarrow> Direction (heap (Dial_begin params c) p) = Direction (heap c p)) \<and>
   Direction (heap (snd (Dial_finish params res c)) p) = Direction (heap c p) \<and>
   Direction (heap (snd (Accept_finish callid creds res c)) p) = Direction (heap c p) \<and>
   Direction (heap (snd (Hangup_finish callid res c)) p) = Direction (heap c p) \<and>
   (p < next_addr c \<and> str_field msg ''event'' \<noteq> ''call_incoming'' \<and>
    str_field msg ''direction'' = '''' \<longrightarrow>
      Direction (heap (handleEvent msg c) p) = Direction (heap c p)) \<and>
   (p < next_addr c \<and>
    fst (find_call (str_field msg ''callid'') (str_field msg ''channel'') (str_field msg ''uid'') c)
      \<noteq> Some p \<longrightarrow>
      Direction (heap (handleEvent msg c) p) = Direction (heap c p)) \<and>
   (handler c \<noteq> None \<and>
    fst (find_call (str_field msg ''callid'') (str_field msg ''channel'') (str_field msg ''uid'') c)
      = Some p \<longrightarrow>
      Direction (heap (handleEvent msg c) p) =
        (if str_field msg ''event'' = ''call_incoming'' then ''inbound''
         else if str_field msg ''direction'' \<noteq> '''' then str_field msg ''direction''
         else Direction (heap (snd (find_call (str_field msg ''callid'') (str_field msg ''channel'')
                                      (str_field msg ''uid'') c)) p))) \<and>
   (calls c cid = None \<and> (channel \<noteq> '''' \<and> uid \<noteq> '''' \<longrightarrow> calls c (channel @ '':'' @ uid) = None) \<and>
    cid \<noteq> '''' \<longrightarrow>
      fst (find_call cid channel uid c) = Some (next_addr c) \<and>
      Direction (heap (snd (find_call cid channel uid c)) (next_addr c)) = '''')"
proof -
  let ?fc = "find_call (str_field msg ''callid'') (str_field msg ''channel'') (str_field msg ''uid'') c"
  have d1: "Direction (heap (Dial_begin params c) (next_addr c)) = ''outbound''"
    and d2: "p < next_addr c \<longrightarrow> Direction (heap (Dial_begin params c) p) = Direction (heap c p)"
    by (simp_all add: Dial_begin_def new_Call_def reg_insert_def)
  have d3: "Direction (heap (snd (Dial_finish params res c)) p) = Direction (heap c p)"
    by (simp add: Dial_finish_def Dial_promote_def Let_def reg_delete_def reg_insert_def upd_Call_def
        split: sum.split option.split jvalue.split)
  have d4: "Direction (heap (snd (Accept_finish callid creds res c)) p) = Direction (heap c p)"
    by (simp add: Accept_finish_def upd_Call_def split: sum.split option.split)
  have d5: "Direction (heap (snd (Hangup_finish callid res c)) p) = Direction (heap c p)"
    by (simp add: Hangup_finish_def reg_delete_def split: sum.split option.split)
  have ev: "Direction (heap (handleEvent msg c) p) =
      (if p = q
       then (if str_field msg ''event'' = ''call_incoming'' then ''inbound''
             else if str_field msg ''direction'' \<noteq> '''' then str_field msg ''direction''
             else Direction (heap (snd ?fc) p))
       else Direction (heap (snd ?fc) p))"
    if "handler c = Some h" and "fst ?fc = Some q" for h q
    by (simp add: handleEvent_Some [OF that] dispatch_Direction upd_Call_def merge_fields_eq)
  have d6: "p < next_addr c \<and> str_field msg ''event'' \<noteq> ''call_incoming'' \<and>
    str_field msg ''direction'' = '''' \<longrightarrow>
      Direction (heap (handleEvent msg c) p) = Direction (heap c p)"
  proof (cases "handler c = None \<or> fst ?fc = None")
    case True
    then show ?thesis by (simp add: handleEvent_None)
  next
    case False
    then obtain h q where "handler c = Some h" "fst ?fc = Some q" by auto
    from ev [OF this] show ?thesis by (simp add: find_call_old_heap)
  qed
  have d7: "p < next_addr c \<and> fst ?fc \<noteq> Some p \<longrightarrow>
      Direction (heap (handleEvent msg c) p) = Direction (heap c p)"
  proof (cases "handler c = None \<or> fst ?fc = None")
    case True
    then show ?thesis by (simp add: handleEvent_None)
  next
    case False
    then obtain h q where "handler c = Some h" "fst ?fc = Some q" by auto
    from ev [OF this] this show ?thesis by (auto simp add: find_call_old_heap)
  qed
  have d8: "handler c \<noteq> None \<and> fst ?fc = Some p \<longrightarrow>
      Direction (heap (handleEvent msg c) p) =
        (if str_field msg ''event'' = ''call_incoming'' then ''inbound''
         else if str_field msg ''direction'' \<noteq> '''' then str_field msg ''direction''
         else Direction (heap (snd ?fc) p))"
    using ev by auto
  have d9: "calls c cid = None \<and>
    (channel \<noteq> '''' \<and> uid \<noteq> '''' \<longrightarrow> calls c (channel @ '':'' @ uid) = None) \<and> cid \<noteq> '''' \<longrightarrow>
      fst (find_call cid channel uid c) = Some (next_addr c) \<and>
      Direction (heap (snd (find_call cid channel uid c)) (next_addr c)) = ''''"
  proof (rule impI)
    assume a: "calls c cid = None \<and>
      (channel \<noteq> '''' \<and> uid \<noteq> '''' \<longrightarrow> calls c (channel @ '':'' @ uid) = None) \<and> cid \<noteq> ''''"
    then have "calls c cid = None"
      and "channel \<noteq> '''' \<and> uid \<noteq> '''' \<longrightarrow> calls c (channel @ '':'' @ uid) = None"
      and "cid \<noteq> ''''"
      by simp_all
    from find_call_create [OF this]
    show "fst (find_call cid channel uid c) = Some (next_addr c) \<and>
      Direction (heap (snd (find_call cid channel uid c)) (next_addr c)) = ''''"
      by (simp add: zero_Call_def)
  qed
  show ?thesis using d1 d2 d3 d4 d5 d6 d7 d8 d9 by blast
qed


subsection \<open>The sweep of the pending table and the result of a command\<close>

lemma drain_entries_Nil [simp]: "drain_entries [] c = c"
  by (simp add: drain_entries_def)

lemma drain_entries_Cons [simp]: "drain_entries (e # es) c = drain_entries es (drain_entry e c)"
  by (simp add: drain_entries_def)

lemma chan_try_send_chans:
  "chans (chan_try_send ch v c) ch' =
     (if ch' = ch \<and> chans c ch = [] then [v] else chans c ch')"
  by (simp add: chan_try_send_def chan_send_def)

lemma drain_entry_pending: "pending (drain_entry e c) = AList.delete (fst e) (pending c)"
  by (simp add: drain_entry_def pending_delete_def chan_try_send_def chan_send_def)

lemma drain_entry_chans:
  "chans (drain_entry e c) ch = (if ch = snd e \<and> chans c ch = [] then [None] else chans c ch)"
  by (auto simp add: drain_entry_def pending_delete_def chan_try_send_chans)

lemma drain_entries_pending:
  "pending (drain_entries es c) = filter (\<lambda>x. fst x \<notin> fst ` set es) (pending c)"
proof (induction es arbitrary: c)
  case Nil
  then show ?case by simp
next
  case (Cons e es)
  have "filter P (AList.delete k al) = filter (\<lambda>x. fst x \<noteq> k \<and> P x) al" for P k and al :: "(string \<times> nat) list"
    by (induction al) auto
  then show ?case by (simp add: Cons.IH drain_entry_pending conj_commute)
qed

lemma drain_entries_chans:
  "chans (drain_entries es c) ch =
     (if ch \<in> snd ` set es \<and> chans c ch = [] then [None] else chans c ch)"
proof (induction es arbitrary: c)
  case Nil
  then show ?case by simp
next
  case (Cons e es)
  show ?case by (simp add: Cons.IH drain_entry_chans)
qed

lemma drain_entry_frame:
  "calls (drain_entry e c) = calls c" "heap (drain_entry e c) = heap c"
  "next_addr (drain_entry e c) = next_addr c" "reg_ops (drain_entry e c) = reg_ops c"
  "callbacks (drain_entry e c) = callbacks c" "handler (drain_entry e c) = handler c"
  "next_chan (drain_entry e c) = next_chan c" "nextReqID (drain_entry e c) = nextReqID c"
  "frames (drain_entry e c) = frames c" "connected (drain_entry e c) = connected c"
  "conn (drain_entry e c) = conn c" "done_closed (drain_entry e c) = done_closed c"
  "done_closes (drain_entry e c) = done_closes c" "closed_conns (drain_entry e c) = closed_conns c"
  by (simp_all add: drain_entry_def pending_delete_def chan_try_send_def chan_send_def)

lemma drain_entries_frame:
  "calls (drain_entries es c) = calls c \<and> heap (drain_entries es c) = heap c \<and>
   next_addr (drain_entries es c) = next_addr c \<and> reg_ops (drain_entries es c) = reg_ops c \<and>
   callbacks (drain_entries es c) = callbacks c \<and> handler (drain_entries es c) = handler c \<and>
   next_chan (drain_entries es c) = next_chan c \<and> nextReqID (drain_entries es c) = nextReqID c \<and>
   frames (drain_entries es c) = frames c \<and> connected (drain_entries es c) = connected c \<and>
   conn (drain_entries es c) = conn c \<and> done_closed (drain_entries es c) = done_closed c \<and>
   done_closes (drain_entries es c) = done_closes c \<and> closed_conns (drain_entries es c) = closed_conns c"
  by (induction es arbitrary: c) (simp_all add: drain_entry_frame)

lemma drain_pending_pending [simp]: "pending (drain_pending c) = []"
  by (simp add: drain_pending_def drain_entries_pending)

lemma drain_pending_chans:
  "chans (drain_pending c) ch =
     (if ch \<in> snd ` set (pending c) \<and> chans c ch = [] then [None] else chans c ch)"
  by (simp add: drain_pending_def drain_entries_chans)

lemmas drain_pending_frame = drain_entries_frame [of "pending c" c, folded drain_pending_def] for c

lemma format_reqID_nonempty [simp]: "format_reqID a n \<noteq> []"
  by (simp add: format_reqID_def)

lemma sendCommand_issue_not_connected:
  "\<not> connected c \<or> conn c = None \<Longrightarrow> sendCommand_issue a m ok c = (Inl NotConnected, c)"
  by (auto simp add: sendCommand_issue_def)

lemma sendCommand_issue_connected:
  assumes "connected c" and "conn c = Some cn"
  shows "sendCommand_issue a m ok c =
     (if ok then Inr (format_reqID a (nextReqID c + 1), next_chan c) else Inl SendFailed,
      c\<lparr>nextReqID := nextReqID c + 1,
        chans := (chans c)(next_chan c := []),
        next_chan := Suc (next_chan c),
        pending := (if ok then AList.update (format_reqID a (nextReqID c + 1)) (next_chan c) (pending c)
                    else AList.delete (format_reqID a (nextReqID c + 1)) (pending c)),
        frames := frames c @ [m(''request_id'' \<mapsto> JString (format_reqID a (nextReqID c + 1)))]\<rparr>)"
  using assms
  by (simp add: sendCommand_issue_def Let_def make_chan_def pending_delete_def
      AList.delete_update_same)

lemma sendCommand_not_connected:
  "\<not> connected c \<or> conn c = None \<Longrightarrow> sendCommand a m oc c = (Inl NotConnected, c)"
  by (simp add: sendCommand_def sendCommand_issue_not_connected)

lemma sendCommand_WriteFails:
  assumes "connected c" and "conn c = Some cn"
  shows "fst (sendCommand a m WriteFails c) = Inl SendFailed"
  using assms by (simp add: sendCommand_def sendCommand_issue_connected [OF assms])

lemma sendCommand_Cancelled:
  assumes "connected c" and "conn c = Some cn"
  shows "fst (sendCommand a m Cancelled c) = Inl ContextDone"
  using assms by (simp add: sendCommand_def sendCommand_issue_connected [OF assms]
      sendCommand_select_def)

lemma sendCommand_TimedOut:
  assumes "connected c" and "conn c = Some cn"
  shows "fst (sendCommand a m TimedOut c) = Inl CommandTimeout"
  using assms by (simp add: sendCommand_def sendCommand_issue_connected [OF assms]
      sendCommand_select_def)

lemma sendCommand_Reply:
  assumes "connected c" and "conn c = Some cn"
  shows "fst (sendCommand a m (Reply r) c) =
           Inr (Some (r(''request_id'' \<mapsto> JString (format_reqID a (nextReqID c + 1)))))"
  using assms by (simp add: sendCommand_def sendCommand_issue_connected [OF assms]
      sendCommand_select_def readLoop_msg_eq str_field_def AList.update_conv'
      chan_send_def pending_delete_def chan_recv_def)

lemma update_member: "(k, v) \<in> set (AList.update k v al)"
  by (induction al) auto

lemma update_member_snd: "v \<in> snd ` set (AList.update k v al)"
  using update_member [of k v al] by force

lemma sendCommand_ConnLost:
  assumes "connected c" and "conn c = Some cn"
  shows "fst (sendCommand a m ConnLost c) = Inl ConnectionLost"
proof -
  have "chans (readLoop_read_error c') ch =
          (if ch \<in> snd ` set (pending c') \<and> chans c' ch = [] then [None] else chans c' ch)" for c' ch
    by (simp add: readLoop_read_error_def readLoop_exit_def drain_pending_chans notify_def
        split: option.split)
  then show ?thesis
    using assms by (simp add: sendCommand_def sendCommand_issue_connected [OF assms]
      sendCommand_select_def chan_recv_def update_member_snd Let_def)
qed

subsection \<open>\<open>Close\<close>\<close>

lemma drain_pending_empty: "pending c = [] \<Longrightarrow> drain_pending c = c"
  by (simp add: drain_pending_def)

lemma Close_fst: "fst (Close e c) = Inr (case conn c of None \<Rightarrow> None | Some n \<Rightarrow> e)"
  by (simp add: Close_def close_done_def Let_def drain_pending_frame split: option.split)

lemma Close_fields:
  "\<not> connected (snd (Close e c))"
  "done_closed (snd (Close e c))"
  "done_closes (snd (Close e c)) = (if done_closed c then done_closes c else Suc (done_closes c))"
  "pending (snd (Close e c)) = []"
  "conn (snd (Close e c)) = None"
  "closed_conns (snd (Close e c)) = closed_conns c @ (case conn c of None \<Rightarrow> [] | Some n \<Rightarrow> [n])"
  by (simp_all add: Close_def close_done_def Let_def drain_pending_frame split: option.split)

lemma Close_chans:
  "chans (snd (Close e c)) ch =
     (if ch \<in> snd ` set (pending c) \<and> chans c ch = [] then [None] else chans c ch)"
  by (simp add: Close_def close_done_def Let_def drain_pending_chans split: option.split)


lemma Close_closed:
  assumes "\<not> connected c" and "done_closed c" and "pending c = []" and "conn c = None"
  shows "Close e c = (Inr None, c)"
proof -
  have "c\<lparr>connected := False\<rparr> = c" using assms(1) by (cases c) simp
  moreover have "c\<lparr>conn := None\<rparr> = c" using assms(4) by (cases c) simp
  ultimately show ?thesis
    using assms by (simp add: Close_def Let_def drain_pending_empty)
qed

lemma Close_again: "Close e' (snd (Close e c)) = (Inr None, snd (Close e c))"
  by (rule Close_closed) (simp_all add: Close_fields)

lemma Close_all_after_Close:
  "Close_all es (snd (Close e c)) = (replicate (length es) (Inr None), snd (Close e c))"
  by (induction es) (simp_all add: Close_again)

subsection \<open>The pending table in the states a client reaches\<close>

lemma dispatch_comm:
  "pending (dispatch h msg e cid p c) = pending c"
  "chans (dispatch h msg e cid p c) = chans c"
  "next_chan (dispatch h msg e cid p c) = next_chan c"
  "nextReqID (dispatch h msg e cid p c) = nextReqID c"
  "frames (dispatch h msg e cid p c) = frames c"
  "done_closed (dispatch h msg e cid p c) = done_closed c"
  "done_closes (dispatch h msg e cid p c) = done_closes c"
  "next_addr (dispatch h msg e cid p c) = next_addr c"
  "handler (dispatch h msg e cid p c) = handler c"
  by (simp_all add: dispatch_eq Let_def upd_Call_def notify_def reg_delete_def)

lemma find_call_comm:
  "pending (snd (find_call cid ch uid c)) = pending c"
  "chans (snd (find_call cid ch uid c)) = chans c"
  "next_chan (snd (find_call cid ch uid c)) = next_chan c"
  "nextReqID (snd (find_call cid ch uid c)) = nextReqID c"
  "frames (snd (find_call cid ch uid c)) = frames c"
  "done_closed (snd (find_call cid ch uid c)) = done_closed c"
  "done_closes (snd (find_call cid ch uid c)) = done_closes c"
  "callbacks (snd (find_call cid ch uid c)) = callbacks c"
  by (simp_all add: find_call_def Let_def new_Call_def reg_insert_def)

lemma handleEvent_comm:
  "pending (handleEvent msg c) = pending c"
  "chans (handleEvent msg c) = chans c"
  "next_chan (handleEvent msg c) = next_chan c"
  "nextReqID (handleEvent msg c) = nextReqID c"
  "frames (handleEvent msg c) = frames c"
  "done_closed (handleEvent msg c) = done_closed c"
  "done_closes (handleEvent msg c) = done_closes c"
  "handler (handleEvent msg c) = handler c"
  by (simp_all add: handleEvent_eq Let_def upd_Call_def split_beta dispatch_comm find_call_comm
      find_call_handler split: option.split)

lemma pending_ok_cong:
  "pending c' = pending c \<Longrightarrow> chans c' = chans c \<Longrightarrow> next_chan c' = next_chan c \<Longrightarrow>
   pending_ok c' = pending_ok c"
  by (simp add: pending_ok_def)

lemma pending_ok_empty: "pending c = [] \<Longrightarrow> pending_ok c"
  by (simp add: pending_ok_def)

lemma set_delete_subset: "set (AList.delete k al) \<subseteq> set al"
  by (auto simp add: AList.delete_eq)

lemma distinct_snd_delete:
  "distinct (map snd al) \<Longrightarrow> distinct (map snd (AList.delete k al))"
  by (simp add: AList.delete_eq distinct_map_filter)

lemma set_update_subset: "set (AList.update k v al) \<subseteq> insert (k, v) (set al)"
  by (induction al) auto

lemma distinct_snd_update:
  "distinct (map snd al) \<Longrightarrow> v \<notin> snd ` set al \<Longrightarrow> distinct (map snd (AList.update k v al))"
proof (induction al)
  case Nil
  then show ?case by simp
next
  case (Cons x al)
  have "snd ` set (AList.update k v al) \<subseteq> insert v (snd ` set al)"
    using set_update_subset [of k v al] by force
  with Cons show ?case by (cases x) (auto simp add: image_iff)
qed

lemma pending_ok_delete: "pending_ok c \<Longrightarrow> pending_ok (pending_delete k c)"
  using set_delete_subset [of k "pending c"]
  by (auto simp add: pending_ok_def pending_delete_def distinct_snd_delete)

lemma delivery_target_unshared:
  assumes "distinct (map snd al)" and "map_of al k = Some ch" and "e \<in> set (AList.delete k al)"
  shows "snd e \<noteq> ch"
proof
  assume eq: "snd e = ch"
  have in1: "(k, ch) \<in> set al" using assms(2) by (rule map_of_SomeD)
  have in2: "e \<in> set al" and ne: "fst e \<noteq> k"
    using assms(3) by (auto simp add: AList.delete_eq)
  have "inj_on snd (set al)" using assms(1) by (simp add: distinct_map)
  from inj_onD [OF this _ in2 in1] eq have "e = (k, ch)" by simp
  with ne show False by simp
qed

lemma pending_ok_deliver:
  assumes ok: "pending_ok c" and m: "map_of (pending c) k = Some ch"
  shows "chan_send ch v (pending_delete k c) =
           Some ((pending_delete k c)\<lparr>chans := (chans c)(ch := [v])\<rparr>)"
    and "pending_ok ((pending_delete k c)\<lparr>chans := (chans c)(ch := [v])\<rparr>)"
proof -
  have "(k, ch) \<in> set (pending c)" using m by (rule map_of_SomeD)
  then have empty: "chans c ch = []" using ok by (auto simp add: pending_ok_def)
  then show "chan_send ch v (pending_delete k c) =
           Some ((pending_delete k c)\<lparr>chans := (chans c)(ch := [v])\<rparr>)"
    by (simp add: chan_send_def pending_delete_def)
  have d: "distinct (map snd (pending c))" using ok by (simp add: pending_ok_def)
  have "snd e \<noteq> ch" if "e \<in> set (AList.delete k (pending c))" for e
    using delivery_target_unshared [OF d m that] .
  then show "pending_ok ((pending_delete k c)\<lparr>chans := (chans c)(ch := [v])\<rparr>)"
    using pending_ok_delete [OF ok, of k]
    by (auto simp add: pending_ok_def pending_delete_def)
qed

lemma pending_ok_readLoop_msg:
  assumes ok: "pending_ok c" and step: "readLoop_msg m c = Some c'"
  shows "pending_ok c'"
proof (cases m)
  case None
  then show ?thesis using ok step by (simp add: readLoop_msg_eq)
next
  case (Some parsed)
  let ?k = "str_field parsed ''request_id''"
  show ?thesis
  proof (cases "if ?k \<noteq> '''' then map_of (pending c) ?k else None")
    case None
    then have "c' = handleEvent parsed c"
      using step Some by (simp add: readLoop_msg_eq)
    then show ?thesis using ok pending_ok_cong [of c' c] by (simp add: handleEvent_comm)
  next
    case (Some ch)
    then have m: "map_of (pending c) ?k = Some ch" by (simp split: if_splits)
    have "readLoop_msg (Some parsed) c = chan_send ch (Some parsed) (pending_delete ?k c)"
      using Some by (simp add: readLoop_msg_eq)
    then show ?thesis
      using pending_ok_deliver [OF ok m, of "Some parsed"] step \<open>m = Some parsed\<close> by simp
  qed
qed

lemma pending_ok_issue:
  assumes ok: "pending_ok c"
  shows "pending_ok (snd (sendCommand_issue a m w c))"
proof (cases "connected c \<and> conn c \<noteq> None")
  case False
  then show ?thesis using ok by (simp add: sendCommand_issue_not_connected)
next
  case True
  then obtain cn where cn: "connected c" "conn c = Some cn" by auto
  let ?k = "format_reqID a (nextReqID c + 1)"
  have fresh: "next_chan c \<notin> snd ` set (pending c)"
    using ok by (auto simp add: pending_ok_def)
  have d: "distinct (map snd (pending c))" using ok by (simp add: pending_ok_def)
  have old: "snd e < next_chan c \<and> chans c (snd e) = []" if "e \<in> set (pending c)" for e
    using ok that by (auto simp add: pending_ok_def)
  show ?thesis
  proof (cases w)
    case True
    have "snd e < Suc (next_chan c) \<and> ((chans c)(next_chan c := [])) (snd e) = []"
      if "e \<in> set (AList.update ?k (next_chan c) (pending c))" for e
      using that set_update_subset [of ?k "next_chan c" "pending c"] old by fastforce
    then show ?thesis
      using True distinct_snd_update [OF d fresh, of ?k]
      by (simp add: sendCommand_issue_connected [OF cn] pending_ok_def)
  next
    case False
    have "snd e < Suc (next_chan c) \<and> ((chans c)(next_chan c := [])) (snd e) = []"
      if "e \<in> set (AList.delete ?k (pending c))" for e
      using that set_delete_subset [of ?k "pending c"] old by fastforce
    then show ?thesis
      using False distinct_snd_delete [OF d, of ?k]
      by (simp add: sendCommand_issue_connected [OF cn] pending_ok_def)
  qed
qed

lemma pending_ok_select:
  assumes ok: "pending_ok c" and step: "sendCommand_select k ch sel c = Some (res, c')"
  shows "pending_ok c'"
proof (cases sel)
  case RecvResp
  then obtain v vs where buf: "chans c ch = v # vs" and c': "c' = c\<lparr>chans := (chans c)(ch := vs)\<rparr>"
    using step by (auto simp add: sendCommand_select_def chan_recv_def split: list.splits)
  have "snd e \<noteq> ch" if "e \<in> set (pending c)" for e
    using ok that buf by (auto simp add: pending_ok_def)
  then show ?thesis using ok c' by (auto simp add: pending_ok_def)
next
  case CtxDone
  then show ?thesis using step pending_ok_delete [OF ok] by (auto simp add: sendCommand_select_def)
next
  case DeadlineFired
  then show ?thesis using step pending_ok_delete [OF ok] by (auto simp add: sendCommand_select_def)
qed

lemma registry_steps_comm:
  "pending (Dial_begin params c) = pending c \<and> chans (Dial_begin params c) = chans c \<and>
   next_chan (Dial_begin params c) = next_chan c \<and> nextReqID (Dial_begin params c) = nextReqID c \<and>
   frames (Dial_begin params c) = frames c \<and> done_closed (Dial_begin params c) = done_closed c \<and>
   done_closes (Dial_begin params c) = done_closes c"
  "pending (snd (Dial_finish params res c)) = pending c \<and>
   chans (snd (Dial_finish params res c)) = chans c \<and>
   next_chan (snd (Dial_finish params res c)) = next_chan c \<and>
   nextReqID (snd (Dial_finish params res c)) = nextReqID c \<and>
   frames (snd (Dial_finish params res c)) = frames c \<and>
   done_closed (snd (Dial_finish params res c)) = done_closed c \<and>
   done_closes (snd (Dial_finish params res c)) = done_closes c"
  "pending (snd (Accept_finish callid creds res c)) = pending c \<and>
   chans (snd (Accept_finish callid creds res c)) = chans c \<and>
   next_chan (snd (Accept_finish callid creds res c)) = next_chan c \<and>
   nextReqID (snd (Accept_finish callid creds res c)) = nextReqID c \<and>
   frames (snd (Accept_finish callid creds res c)) = frames c \<and>
   done_closed (snd (Accept_finish callid creds res c)) = done_closed c \<and>
   done_closes (snd (Accept_finish callid creds res c)) = done_closes c"
  "pending (snd (Hangup_finish callid res c)) = pending c \<and>
   chans (snd (Hangup_finish callid res c)) = chans c \<and>
   next_chan (snd (Hangup_finish callid res c)) = next_chan c \<and>
   nextReqID (snd (Hangup_finish callid res c)) = nextReqID c \<and>
   frames (snd (Hangup_finish callid res c)) = frames c \<and>
   done_closed (snd (Hangup_finish callid res c)) = done_closed c \<and>
   done_closes (snd (Hangup_finish callid res c)) = done_closes c"
     apply (simp add: Dial_begin_def new_Call_def reg_insert_def)
    apply (simp add: Dial_finish_def Dial_promote_def Let_def reg_delete_def reg_insert_def upd_Call_def
      split: sum.split option.split jvalue.split)
   apply (simp add: Accept_finish_def upd_Call_def split: sum.split option.split)
  apply (simp add: Hangup_finish_def reg_delete_def split: sum.split option.split)
  done

lemma event_steps_comm:
  "pending (snd (handleEvent_lookup msg c)) = pending c \<and>
   chans (snd (handleEvent_lookup msg c)) = chans c \<and>
   next_chan (snd (handleEvent_lookup msg c)) = next_chan c \<and>
   nextReqID (snd (handleEvent_lookup msg c)) = nextReqID c \<and>
   frames (snd (handleEvent_lookup msg c)) = frames c \<and>
   done_closed (snd (handleEvent_lookup msg c)) = done_closed c \<and>
   done_closes (snd (handleEvent_lookup msg c)) = done_closes c"
  "pending (switch_section e cid p c) = pending c \<and>
   chans (switch_section e cid p c) = chans c \<and>
   next_chan (switch_section e cid p c) = next_chan c \<and>
   nextReqID (switch_section e cid p c) = nextReqID c \<and>
   frames (switch_section e cid p c) = frames c \<and>
   done_closed (switch_section e cid p c) = done_closed c \<and>
   done_closes (switch_section e cid p c) = done_closes c"
  "pending (snd (switch_callback h msg e p c)) = pending c \<and>
   chans (snd (switch_callback h msg e p c)) = chans c \<and>
   next_chan (snd (switch_callback h msg e p c)) = next_chan c \<and>
   nextReqID (snd (switch_callback h msg e p c)) = nextReqID c \<and>
   frames (snd (switch_callback h msg e p c)) = frames c \<and>
   done_closed (snd (switch_callback h msg e p c)) = done_closed c \<and>
   done_closes (snd (switch_callback h msg e p c)) = done_closes c"
  "pending (reg_delete k c) = pending c \<and>
   chans (reg_delete k c) = chans c \<and>
   next_chan (reg_delete k c) = next_chan c \<and>
   nextReqID (reg_delete k c) = nextReqID c \<and>
   frames (reg_delete k c) = frames c \<and>
   done_closed (reg_delete k c) = done_closed c \<and>
   done_closes (reg_delete k c) = done_closes c"
     apply (simp add: handleEvent_lookup_def Let_def split_beta upd_Call_def find_call_comm
      split: option.split)
    apply (simp add: switch_section_def Let_def upd_Call_def reg_delete_def)
   apply (simp add: switch_callback_def notify_def)
  apply (simp add: reg_delete_def)
  done

lemma running_pending_ok: "running l c \<Longrightarrow> pending_ok c"
proof (induction rule: running.induct)
  case (run_new url tok cid app)
  then show ?case by (simp add: pending_ok_def NewClient_def)
next
  case (run_handler l c h)
  then show ?case by (simp add: pending_ok_def SetHandler_def)
next
  case (run_connect l c cn sid)
  then show ?case
    by (simp add: pending_ok_def Connect_registered_def Let_def notify_def split: option.split)
next
  case (run_close l c e)
  then show ?case by (simp add: pending_ok_empty Close_fields)
next
  case (run_read_error l c)
  then show ?case by (simp add: pending_ok_empty readLoop_read_error_def readLoop_exit_def)
next
  case (run_read_exit l c)
  then show ?case by (simp add: pending_ok_empty readLoop_exit_def)
next
  case (run_deliver l c parsed ch c')
  then have "readLoop_msg (Some parsed) c = Some c'" by (simp add: readLoop_msg_def)
  with run_deliver show ?case using pending_ok_readLoop_msg by blast
next
  case (run_event l c msg)
  then show ?case by simp
next
  case (run_fetch l1 msg l2 c)
  then show ?case by simp
next
  case (run_lookup l1 h msg l2 c r c')
  then have "c' = snd (handleEvent_lookup msg c)" by simp
  with run_lookup show ?case using pending_ok_cong [of c' c] by (simp add: event_steps_comm)
next
  case (run_section l1 h msg p l2 c)
  then show ?case
    using pending_ok_cong [of "switch_section (str_field msg ''event'') (str_field msg ''callid'') p c" c]
    by (simp add: event_steps_comm)
next
  case (run_callback l1 h msg p l2 c claimed c')
  then have "c' = snd (switch_callback h msg (str_field msg ''event'') p c)" by simp
  with run_callback show ?case using pending_ok_cong [of c' c] by (simp add: event_steps_comm)
next
  case (run_decline l1 msg l2 c)
  then show ?case using pending_ok_cong [of "reg_delete (str_field msg ''callid'') c" c]
    by (simp add: event_steps_comm)
next
  case (run_issue l c action msg ok)
  then show ?case by (simp add: pending_ok_issue)
next
  case (run_select l c reqID ch sel res c')
  then show ?case using pending_ok_select by blast
next
  case (run_dial_begin l c params)
  then show ?case using pending_ok_cong [of "Dial_begin params c" c]
    by (simp add: registry_steps_comm)
next
  case (run_dial_finish l c params res)
  then show ?case using pending_ok_cong [of "snd (Dial_finish params res c)" c]
    by (simp add: registry_steps_comm)
next
  case (run_accept_finish l c callid creds res)
  then show ?case using pending_ok_cong [of "snd (Accept_finish callid creds res c)" c]
    by (simp add: registry_steps_comm)
next
  case (run_hangup_finish l c callid res)
  then show ?case using pending_ok_cong [of "snd (Hangup_finish callid res c)" c]
    by (simp add: registry_steps_comm)
qed

lemma reachable_pending_ok: "reachable c \<Longrightarrow> pending_ok c"
  by (auto simp add: reachable_def running_pending_ok)

subsection \<open>Connection loss\<close>

lemma sweep_effect:
  assumes "D = readLoop_exit c \<or> D = readLoop_read_error c \<or> D = snd (Close e c) \<or>
           (set es = set (pending c) \<and> D = drain_entries es (c\<lparr>connected := False\<rparr>))"
  shows "pending D = [] \<and> \<not> connected D \<and>
         (\<forall>ch. chans D ch =
            (if ch \<in> snd ` set (pending c) \<and> chans c ch = [] then [None] else chans c ch))"
proof -
  have 1: ?thesis if "D = readLoop_exit c"
    using that by (simp add: readLoop_exit_def drain_pending_chans drain_pending_frame)
  have 2: ?thesis if "D = readLoop_read_error c"
    using that
    by (simp add: readLoop_read_error_def readLoop_exit_def drain_pending_chans drain_pending_frame
        notify_def split: option.split)
  have 3: ?thesis if "D = snd (Close e c)"
    using that by (simp add: Close_fields Close_chans)
  have 4: ?thesis if "set es = set (pending c) \<and> D = drain_entries es (c\<lparr>connected := False\<rparr>)"
    using that by (simp add: drain_entries_pending drain_entries_chans drain_entries_frame)
  from assms 1 2 3 4 show ?thesis by blast
qed

text \<open>
  \<^bold>\<open>C1.\<close> In every state the client can reach, the sweep of the pending table (run by the
  deferred function of the read loop, on its exit or on a read error, and by \<open>Close\<close>; in
  any order of the entries) leaves the table empty and the connected flag false, and every
  command that was in the table finds the nil value in its channel: its \<open>select\<close> takes the
  receive case and \<open>sendCommand\<close> returns the connection-lost error.
\<close>

theorem sweep_unblocks_every_waiter:
  assumes r: "reachable c"
    and D: "D = readLoop_exit c \<or> D = readLoop_read_error c \<or> D = snd (Close e c) \<or>
            (set es = set (pending c) \<and> D = drain_entries es (c\<lparr>connected := False\<rparr>))"
  shows "pending D = [] \<and> \<not> connected D \<and>
         (\<forall>w \<in> set (pending c).
            chans D (snd w) = [None] \<and>
            map_option fst (sendCommand_select (fst w) (snd w) RecvResp D) =
              Some (Inl ConnectionLost))"
proof -
  note eff = sweep_effect [OF D]
  have ok: "pending_ok c" using r by (rule reachable_pending_ok)
  have "chans D (snd w) = [None] \<and>
        map_option fst (sendCommand_select (fst w) (snd w) RecvResp D) = Some (Inl ConnectionLost)"
    if w: "w \<in> set (pending c)" for w
  proof -
    from ok w have "chans c (snd w) = []" by (auto simp add: pending_ok_def)
    with eff w have "chans D (snd w) = [None]" by simp
    then show ?thesis by (simp add: sendCommand_select_def chan_recv_def)
  qed
  with eff show ?thesis by blast
qed

subsection \<open>Request identifiers\<close>
















subsection \<open>\<open>Hangup\<close>\<close>

lemma readLoop_read_error_registry:
  "calls (readLoop_read_error c) = calls c \<and> heap (readLoop_read_error c) = heap c \<and>
   next_addr (readLoop_read_error c) = next_addr c \<and> reg_ops (readLoop_read_error c) = reg_ops c \<and>
   handler (readLoop_read_error c) = handler c \<and> frames (readLoop_read_error c) = frames c"
  by (simp add: readLoop_read_error_def readLoop_exit_def drain_pending_frame notify_def
      split: option.split)

lemma sendCommand_registry:
  "calls (snd (sendCommand a m oc c)) = calls c \<and> heap (snd (sendCommand a m oc c)) = heap c \<and>
   next_addr (snd (sendCommand a m oc c)) = next_addr c \<and>
   reg_ops (snd (sendCommand a m oc c)) = reg_ops c \<and>
   handler (snd (sendCommand a m oc c)) = handler c"
proof (cases "connected c \<and> conn c \<noteq> None")
  case False
  then show ?thesis by (simp add: sendCommand_not_connected)
next
  case True
  then obtain cn where cn: "connected c" "conn c = Some cn" by auto
  note issue = sendCommand_issue_connected [OF cn]
  show ?thesis
  proof (cases oc)
    case WriteFails
    then show ?thesis by (simp add: sendCommand_def issue)
  next
    case (Reply r)
    then show ?thesis
      by (simp add: sendCommand_def issue sendCommand_select_def readLoop_msg_eq str_field_def
          AList.update_conv' chan_send_def pending_delete_def chan_recv_def)
  next
    case ConnLost
    then show ?thesis
      by (simp add: sendCommand_def issue sendCommand_select_def chan_recv_def Let_def
          pending_delete_def readLoop_read_error_registry split: list.split)
  next
    case Cancelled
    then show ?thesis by (simp add: sendCommand_def issue sendCommand_select_def pending_delete_def)
  next
    case TimedOut
    then show ?thesis by (simp add: sendCommand_def issue sendCommand_select_def pending_delete_def)
  qed
qed


lemma sendCommand_fst:
  assumes cn: "connected c" "conn c = Some cn"
  shows "fst (sendCommand a m oc c) =
     (case oc of
        WriteFails \<Rightarrow> Inl SendFailed
      | Reply r \<Rightarrow> Inr (Some (r(''request_id'' \<mapsto> JString (format_reqID a (nextReqID c + 1)))))
      | ConnLost \<Rightarrow> Inl ConnectionLost
      | Cancelled \<Rightarrow> Inl ContextDone
      | TimedOut \<Rightarrow> Inl CommandTimeout)"
  by (cases oc)
    (simp_all add: sendCommand_WriteFails [OF cn] sendCommand_Reply [OF cn]
      sendCommand_ConnLost [OF cn] sendCommand_Cancelled [OF cn] sendCommand_TimedOut [OF cn])

lemma Hangup_eq:
  "Hangup callid oc c =
     Hangup_finish callid (fst (sendCommand (Hangup_action callid c) (Hangup_msg callid c) oc c))
       (snd (sendCommand (Hangup_action callid c) (Hangup_msg callid c) oc c))"
  by (simp add: Hangup_def split_beta)



lemma reply_error_request_id [simp]:
  "reply_error (r(''request_id'' \<mapsto> v)) = reply_error r"
  by (simp add: reply_error_def)



subsection \<open>\<open>Dial\<close>\<close>

lemma Dial_eq:
  "Dial params oc c =
     Dial_finish params (fst (sendCommand ''outbound'' (Dial_msg params) oc (Dial_begin params c)))
       (snd (sendCommand ''outbound'' (Dial_msg params) oc (Dial_begin params c)))"
  by (simp add: Dial_def split_beta Let_def)

lemma Dial_begin_eq:
  "Dial_begin params c =
     c\<lparr>calls := (calls c)(chanKey params \<mapsto> next_addr c),
       heap := (heap c)(next_addr c :=
         \<lparr>CallID = '''', State = ''ringing'', Direction = ''outbound'', From = From_p params,
          To = To_p params, Channel = Channel_p params, UID = UID_p params,
          AppID = AppID_p params\<rparr>),
       next_addr := Suc (next_addr c),
       reg_ops := reg_ops c @ [RegInsert (chanKey params)]\<rparr>"
  by (simp add: Dial_begin_def new_Call_def reg_insert_def zero_Call_def)

lemma Dial_finish_error:
  "fst (Dial_finish params res c) = Inl e \<Longrightarrow>
   snd (Dial_finish params res c) = reg_delete (chanKey params) c"
  by (simp add: Dial_finish_def Let_def split: sum.splits option.splits)

lemma Dial_finish_result:
  "fst (Dial_finish params res c) = Inr r \<Longrightarrow>
   snd (Dial_finish params res c) = reg_delete (chanKey params) (Dial_promote params (CallID_r r) c)"
  by (auto simp add: Dial_finish_def Let_def split: sum.splits option.splits jvalue.splits)

lemma Dial_finish_reply:
  "fst (Dial_finish params (Inr (Some resp)) c) =
     Inr (case resp ''data'' of
            Some (JObject data) \<Rightarrow>
              \<lparr>Success = bool_field data ''success'', CallID_r = str_field data ''callid'', Data = resp\<rparr>
          | _ \<Rightarrow> \<lparr>Success = False, CallID_r = '''', Data = resp\<rparr>)"
  by (simp add: Dial_finish_def Let_def split: option.split jvalue.split)

lemma Dial_finish_failed:
  "fst (Dial_finish params (Inl e) c) = Inl e"
  "fst (Dial_finish params (Inr None) c) = Inl ConnectionLost"
  by (simp_all add: Dial_finish_def)

text \<open>
  \<^bold>\<open>C4.\<close> \<open>Dial\<close> first stores a new record under \<open>channel + ":" + uid\<close>, in state
  \<open>ringing\<close>, with direction \<open>outbound\<close> and the appid of the parameters, and no frame has
  been written then. When the reply carries a call id the record gets that id and is stored
  under it; on an error of \<open>sendCommand\<close> (send failure, connection loss, timeout,
  cancellation, not connected) and on a reply without a call id the registry is what it was
  before, without the \<open>channel:uid\<close> key. In every case the \<open>channel:uid\<close> key is absent
  when \<open>Dial\<close> returns.
\<close>

theorem Dial_provisional_and_promotion:
  "calls (Dial_begin params c) (chanKey params) = Some (next_addr c) \<and>
   heap (Dial_begin params c) (next_addr c) =
     \<lparr>CallID = '''', State = ''ringing'', Direction = ''outbound'', From = From_p params,
      To = To_p params, Channel = Channel_p params, UID = UID_p params, AppID = AppID_p params\<rparr> \<and>
   frames (Dial_begin params c) = frames c \<and>
   chanKey params = Channel_p params @ '':'' @ UID_p params \<and>
   calls (snd (Dial params oc c)) (chanKey params) = None \<and>
   (\<forall>e. fst (Dial params oc c) = Inl e \<longrightarrow>
      calls (snd (Dial params oc c)) = (calls c)(chanKey params := None)) \<and>
   (\<forall>r. fst (Dial params oc c) = Inr r \<and> CallID_r r = '''' \<longrightarrow>
      calls (snd (Dial params oc c)) = (calls c)(chanKey params := None)) \<and>
   (\<forall>r. fst (Dial params oc c) = Inr r \<and> CallID_r r \<noteq> '''' \<longrightarrow>
      calls (Dial_promote params (CallID_r r)
               (snd (sendCommand ''outbound'' (Dial_msg params) oc (Dial_begin params c))))
        (CallID_r r) = Some (next_addr c) \<and>
      calls (snd (Dial params oc c)) =
        (calls c)(CallID_r r \<mapsto> next_addr c, chanKey params := None) \<and>
      heap (snd (Dial params oc c)) (next_addr c) =
        \<lparr>CallID = CallID_r r, State = ''ringing'', Direction = ''outbound'', From = From_p params,
         To = To_p params, Channel = Channel_p params, UID = UID_p params,
         AppID = AppID_p params\<rparr>) \<and>
   (connected c \<and> conn c \<noteq> None \<longrightarrow>
      (oc = WriteFails \<longrightarrow> fst (Dial params oc c) = Inl SendFailed) \<and>
      (oc = ConnLost \<longrightarrow> fst (Dial params oc c) = Inl ConnectionLost) \<and>
      (\<forall>resp data. oc = Reply resp \<and> resp ''data'' = Some (JObject data) \<longrightarrow>
         (\<exists>r. fst (Dial params oc c) = Inr r \<and> CallID_r r = str_field data ''callid'' \<and>
              Success r = bool_field data ''success'')) \<and>
      (\<forall>resp. oc = Reply resp \<and> (\<forall>data. resp ''data'' \<noteq> Some (JObject data)) \<longrightarrow>
         (\<exists>r. fst (Dial params oc c) = Inr r \<and> CallID_r r = '''')))"
proof -
  let ?c1 = "Dial_begin params c"
  let ?sc = "sendCommand ''outbound'' (Dial_msg params) oc ?c1"
  have c2: "calls (snd ?sc) = (calls c)(chanKey params \<mapsto> next_addr c)"
    "heap (snd ?sc) = heap ?c1"
    by (simp_all add: sendCommand_registry Dial_begin_eq)
  have a: "calls ?c1 (chanKey params) = Some (next_addr c)"
    "heap ?c1 (next_addr c) =
     \<lparr>CallID = '''', State = ''ringing'', Direction = ''outbound'', From = From_p params,
      To = To_p params, Channel = Channel_p params, UID = UID_p params, AppID = AppID_p params\<rparr>"
    "frames ?c1 = frames c"
    by (simp_all add: Dial_begin_eq)
  have b: "calls (snd (Dial params oc c)) (chanKey params) = None"
    by (simp add: Dial_eq Dial_finish_def Let_def reg_delete_def split: sum.split option.split)
  have e: "calls (snd (Dial params oc c)) = (calls c)(chanKey params := None)"
    if "fst (Dial params oc c) = Inl e" for e
    using that by (simp add: Dial_eq Dial_finish_error reg_delete_def c2)
  have r0: "calls (snd (Dial params oc c)) = (calls c)(chanKey params := None)"
    if "fst (Dial params oc c) = Inr r \<and> CallID_r r = ''''" for r
    using that by (simp add: Dial_eq Dial_finish_result reg_delete_def Dial_promote_def c2)
  have r1: "calls (Dial_promote params (CallID_r r) (snd ?sc)) (CallID_r r) = Some (next_addr c) \<and>
      calls (snd (Dial params oc c)) =
        (calls c)(CallID_r r \<mapsto> next_addr c, chanKey params := None) \<and>
      heap (snd (Dial params oc c)) (next_addr c) =
        \<lparr>CallID = CallID_r r, State = ''ringing'', Direction = ''outbound'', From = From_p params,
         To = To_p params, Channel = Channel_p params, UID = UID_p params,
         AppID = AppID_p params\<rparr>"
    if "fst (Dial params oc c) = Inr r \<and> CallID_r r \<noteq> ''''" for r
    using that
    by (simp add: Dial_eq Dial_finish_result reg_delete_def Dial_promote_def c2 reg_insert_def
        upd_Call_def a)
  have f: "(oc = WriteFails \<longrightarrow> fst (Dial params oc c) = Inl SendFailed) \<and>
      (oc = ConnLost \<longrightarrow> fst (Dial params oc c) = Inl ConnectionLost) \<and>
      (\<forall>resp data. oc = Reply resp \<and> resp ''data'' = Some (JObject data) \<longrightarrow>
         (\<exists>r. fst (Dial params oc c) = Inr r \<and> CallID_r r = str_field data ''callid'' \<and>
              Success r = bool_field data ''success'')) \<and>
      (\<forall>resp. oc = Reply resp \<and> (\<forall>data. resp ''data'' \<noteq> Some (JObject data)) \<longrightarrow>
         (\<exists>r. fst (Dial params oc c) = Inr r \<and> CallID_r r = ''''))"
    if "connected c \<and> conn c \<noteq> None"
  proof -
    from that obtain cn where cn: "connected ?c1" "conn ?c1 = Some cn"
      by (auto simp add: Dial_begin_eq)
    show ?thesis
      by (auto simp add: Dial_eq sendCommand_fst [OF cn] Dial_finish_failed Dial_finish_reply
          split: option.split jvalue.split)
  qed
  have k: "chanKey params = Channel_p params @ '':'' @ UID_p params"
    by (simp add: chanKey_def)
  show ?thesis
    using a b e r0 r1 f k by blast
qed

subsection \<open>The registry when every operation runs in one turn\<close>

text \<open>
  Each operation of the client, run from its first to its last critical section without a
  turn of another goroutine in between, keeps a registry in which no record is in state
  \<open>hangup\<close> that way.
\<close>

lemma registry_ok_cong:
  "calls c' = calls c \<Longrightarrow> heap c' = heap c \<Longrightarrow> next_addr c' = next_addr c \<Longrightarrow>
   registry_ok c' = registry_ok c"
  by (simp add: registry_ok_def)

lemma registry_ok_delete: "registry_ok c \<Longrightarrow> registry_ok (reg_delete k c)"
  by (auto simp add: registry_ok_def reg_delete_def split: if_splits)

lemma registry_ok_notify: "registry_ok (notify cb c) = registry_ok c"
  by (simp add: registry_ok_def notify_def)

lemma registry_ok_upd:
  "registry_ok c \<Longrightarrow> State (f (heap c p)) \<noteq> ''hangup'' \<Longrightarrow> registry_ok (upd_Call p f c)"
  by (auto simp add: registry_ok_def upd_Call_def)

lemma registry_ok_new:
  assumes ok: "registry_ok c" and st: "State v \<noteq> ''hangup''"
  shows "registry_ok (reg_insert k (next_addr c) (snd (new_Call v c)))"
proof -
  have lt: "p < next_addr c" if "calls c k' = Some p" for k' p
    using ok that by (auto simp add: registry_ok_def)
  show ?thesis
    unfolding registry_ok_def
  proof (rule conjI; intro allI impI)
    fix k' p
    assume "calls (reg_insert k (next_addr c) (snd (new_Call v c))) k' = Some p"
    then have "p = next_addr c \<or> p \<noteq> next_addr c \<and> calls c k' = Some p"
      using lt [of k' p] by (auto simp add: reg_insert_def new_Call_def split: if_splits)
    then show "p < next_addr (reg_insert k (next_addr c) (snd (new_Call v c))) \<and>
               State (heap (reg_insert k (next_addr c) (snd (new_Call v c))) p) \<noteq> ''hangup''"
    proof
      assume "p = next_addr c"
      then show ?thesis using st by (simp add: reg_insert_def new_Call_def)
    next
      assume a: "p \<noteq> next_addr c \<and> calls c k' = Some p"
      then have "p < next_addr c" "State (heap c p) \<noteq> ''hangup''"
        using ok lt [of k' p] unfolding registry_ok_def by blast+
      then show ?thesis using a by (simp add: reg_insert_def new_Call_def)
    qed
  next
    fix k1 k2 p
    assume a: "calls (reg_insert k (next_addr c) (snd (new_Call v c))) k1 = Some p \<and>
            calls (reg_insert k (next_addr c) (snd (new_Call v c))) k2 = Some p"
    show "k1 = k2"
    proof (cases "p = next_addr c")
      case True
      have "k' = k" if "calls (reg_insert k (next_addr c) (snd (new_Call v c))) k' = Some p" for k'
        using that True lt [of k' p] by (auto simp add: reg_insert_def new_Call_def split: if_splits)
      with a show ?thesis by blast
    next
      case False
      with a have "calls c k1 = Some p" "calls c k2 = Some p"
        by (auto simp add: reg_insert_def new_Call_def split: if_splits)
      then show ?thesis using ok unfolding registry_ok_def by blast
    qed
  qed
qed

lemma find_call_ok:
  assumes ok: "registry_ok c" and f: "fst (find_call callid channel uid c) = Some p"
  shows "registry_ok (snd (find_call callid channel uid c)) \<and>
         (calls (snd (find_call callid channel uid c)) callid = Some p \<or>
          channel \<noteq> '''' \<and> uid \<noteq> '''' \<and>
          calls (snd (find_call callid channel uid c)) (channel @ '':'' @ uid) = Some p)"
proof (cases "calls c callid")
  case (Some q)
  then show ?thesis using ok f by (simp add: find_call_by_id)
next
  case None
  show ?thesis
  proof (cases "channel \<noteq> '''' \<and> uid \<noteq> '''' \<and> calls c (channel @ '':'' @ uid) \<noteq> None")
    case True
    then obtain q where q: "calls c (channel @ '':'' @ uid) = Some q" by auto
    from True have "find_call callid channel uid c = (Some q, c)"
      using find_call_by_chan [OF None _ _ q] by simp
    then show ?thesis using ok f True q by simp
  next
    case False
    then have nochan: "channel \<noteq> '''' \<and> uid \<noteq> '''' \<longrightarrow> calls c (channel @ '':'' @ uid) = None"
      by auto
    show ?thesis
    proof (cases "callid = ''''")
      case True
      then show ?thesis using f find_call_nothing [OF None nochan True] by simp
    next
      case False
      have eq: "find_call callid channel uid c =
          (Some (next_addr c),
           reg_insert callid (next_addr c)
             (snd (new_Call (zero_Call\<lparr>CallID := callid, Channel := channel, UID := uid\<rparr>) c)))"
        using None nochan False by (auto simp add: find_call_def Let_def new_Call_def)
      have "registry_ok (reg_insert callid (next_addr c)
             (snd (new_Call (zero_Call\<lparr>CallID := callid, Channel := channel, UID := uid\<rparr>) c)))"
        using ok by (rule registry_ok_new) (simp add: zero_Call_def)
      then show ?thesis using f eq by (simp add: reg_insert_def new_Call_def)
    qed
  qed
qed

lemma hangup_removes:
  assumes ok: "registry_ok c"
    and key: "calls c callid = Some p \<or>
              Channel (heap c p) \<noteq> '''' \<and> UID (heap c p) \<noteq> '''' \<and>
              calls c (Channel (heap c p) @ '':'' @ UID (heap c p)) = Some p"
  shows "registry_ok (dispatch h msg ''call_hangup'' callid p c) \<and>
         (\<forall>k. calls (dispatch h msg ''call_hangup'' callid p c) k \<noteq> Some p) \<and>
         calls (dispatch h msg ''call_hangup'' callid p c) callid = None \<and>
         (Channel (heap c p) \<noteq> '''' \<and> UID (heap c p) \<noteq> '''' \<longrightarrow>
            calls (dispatch h msg ''call_hangup'' callid p c)
              (Channel (heap c p) @ '':'' @ UID (heap c p)) = None) \<and>
         heap (dispatch h msg ''call_hangup'' callid p c) = (heap c)(p := (heap c p)\<lparr>State := ''hangup''\<rparr>) \<and>
         callbacks (dispatch h msg ''call_hangup'' callid p c) = callbacks c @ [OnCallHangup p]"
proof -
  let ?ck = "Channel (heap c p) @ '':'' @ UID (heap c p)"
  let ?both = "Channel (heap c p) \<noteq> '''' \<and> UID (heap c p) \<noteq> ''''"
  let ?d = "dispatch h msg ''call_hangup'' callid p c"
  have inj: "k = k'" if "calls c k = Some p" "calls c k' = Some p" for k k'
    using ok that unfolding registry_ok_def by blast
  have A: "q < next_addr c \<and> State (heap c q) \<noteq> ''hangup''" if "calls c k = Some q" for k q
    using ok that unfolding registry_ok_def by blast
  have cl: "calls ?d = (if ?both then (calls c)(callid := None, ?ck := None)
                        else (calls c)(callid := None))"
    and hp: "heap ?d = (heap c)(p := (heap c p)\<lparr>State := ''hangup''\<rparr>)"
    and na: "next_addr ?d = next_addr c"
    and cb: "callbacks ?d = callbacks c @ [OnCallHangup p]"
    by (simp_all add: dispatch_hangup Let_def reg_delete_def upd_Call_def notify_def)
  have gone: "calls ?d k \<noteq> Some p" for k
  proof
    assume a: "calls ?d k = Some p"
    then have k: "calls c k = Some p" and ne: "k \<noteq> callid" and ne2: "?both \<longrightarrow> k \<noteq> ?ck"
      by (auto simp add: cl split: if_splits)
    from key show False
    proof
      assume "calls c callid = Some p"
      from inj [OF k this] ne show False by simp
    next
      assume b: "Channel (heap c p) \<noteq> '''' \<and> UID (heap c p) \<noteq> '''' \<and> calls c ?ck = Some p"
      then have "k = ?ck" using inj [OF k] by simp
      with ne2 b show False by simp
    qed
  qed
  have sub: "calls c k = Some q" if "calls ?d k = Some q" for k q
    using that by (auto simp add: cl split: if_splits)
  have "registry_ok ?d"
    unfolding registry_ok_def
  proof (rule conjI; intro allI impI)
    fix k q
    assume a: "calls ?d k = Some q"
    then have "q \<noteq> p" using gone [of k] by auto
    then show "q < next_addr ?d \<and> State (heap ?d q) \<noteq> ''hangup''"
      using A [OF sub [OF a]] by (simp add: hp na)
  next
    fix k k' q
    assume "calls ?d k = Some q \<and> calls ?d k' = Some q"
    then have "calls c k = Some q" "calls c k' = Some q" using sub by blast+
    then show "k = k'" using ok unfolding registry_ok_def by blast
  qed
  then show ?thesis using gone hp cb by (simp add: cl)
qed

lemma dispatch_ok:
  assumes ok: "registry_ok c"
    and key: "calls c callid = Some p \<or>
              Channel (heap c p) \<noteq> '''' \<and> UID (heap c p) \<noteq> '''' \<and>
              calls c (Channel (heap c p) @ '':'' @ UID (heap c p)) = Some p"
  shows "registry_ok (dispatch h msg e callid p c)"
proof (cases "e = ''call_hangup''")
  case True
  then show ?thesis using hangup_removes [OF ok key] by simp
next
  case False
  have u: "registry_ok (upd_Call p f c)" if "\<And>call. State (f call) \<noteq> ''hangup''" for f
    using ok that by (rule registry_ok_upd)
  show ?thesis
    using False ok
    by (simp add: dispatch_eq Let_def registry_ok_notify registry_ok_delete u)
qed

lemma handleEvent_ok:
  assumes ok: "registry_ok c"
  shows "registry_ok (handleEvent msg c)"
proof (cases "handler c = None \<or>
    fst (find_call (str_field msg ''callid'') (str_field msg ''channel'') (str_field msg ''uid'') c) = None")
  case True
  then show ?thesis using ok by (simp add: handleEvent_None)
next
  case False
  let ?cid = "str_field msg ''callid''" and ?ch = "str_field msg ''channel''"
    and ?uid = "str_field msg ''uid''"
  let ?c1 = "snd (find_call ?cid ?ch ?uid c)"
  let ?c2 = "upd_Call p (merge_fields msg ?cid ?ch ?uid) ?c1"
  from False obtain h p where h: "handler c = Some h"
    and p: "fst (find_call ?cid ?ch ?uid c) = Some p" by auto
  note fc = find_call_ok [OF ok p]
  let ?c2 = "upd_Call p (merge_fields msg ?cid ?ch ?uid) ?c1"
  have ok2: "registry_ok ?c2"
    using fc by (intro registry_ok_upd) (auto simp add: merge_fields_eq registry_ok_def)
  have key: "calls ?c2 ?cid = Some p \<or>
              Channel (heap ?c2 p) \<noteq> '''' \<and> UID (heap ?c2 p) \<noteq> '''' \<and>
              calls ?c2 (Channel (heap ?c2 p) @ '':'' @ UID (heap ?c2 p)) = Some p"
    using fc by (auto simp add: upd_Call_def merge_fields_eq)
  show ?thesis
    using dispatch_ok [OF ok2 key] by (simp add: handleEvent_Some [OF h p])
qed

lemma Dial_begin_ok: "registry_ok c \<Longrightarrow> registry_ok (Dial_begin params c)"
  unfolding Dial_begin_def split_beta Let_def
  by (simp add: new_Call_def [of _ c, THEN arg_cong [where f = fst]])
    (rule registry_ok_new, simp_all add: zero_Call_def)

lemma Dial_promote_ok:
  assumes ok: "registry_ok c"
  shows "registry_ok (reg_delete (chanKey params) (Dial_promote params callid c))"
proof (cases "callid \<noteq> '''' \<and> calls c (chanKey params) \<noteq> None")
  case False
  then have "Dial_promote params callid c = c"
    by (auto simp add: Dial_promote_def)
  then show ?thesis using ok by (simp add: registry_ok_delete)
next
  case True
  then obtain p where p: "calls c (chanKey params) = Some p" and ne: "callid \<noteq> ''''" by auto
  have inj: "k = k'" if "calls c k = Some q" "calls c k' = Some q" for k k' q
    using ok that unfolding registry_ok_def by blast
  have A: "q < next_addr c \<and> State (heap c q) \<noteq> ''hangup''" if "calls c k = Some q" for k q
    using ok that unfolding registry_ok_def by blast
  let ?d = "reg_delete (chanKey params) (Dial_promote params callid c)"
  have cl: "calls ?d = (calls c)(callid \<mapsto> p, chanKey params := None)"
    and hp: "heap ?d = (heap c)(p := (heap c p)\<lparr>CallID := callid\<rparr>)"
    and na: "next_addr ?d = next_addr c"
    using p ne by (simp_all add: Dial_promote_def reg_delete_def reg_insert_def upd_Call_def)
  show ?thesis
    unfolding registry_ok_def
  proof (rule conjI; intro allI impI)
    fix k q
    assume "calls ?d k = Some q"
    then have "q = p \<or> calls c k = Some q" by (auto simp add: cl split: if_splits)
    then have "q < next_addr c \<and> State (heap c q) \<noteq> ''hangup''" using A p by auto
    then show "q < next_addr ?d \<and> State (heap ?d q) \<noteq> ''hangup''" by (auto simp add: hp na)
  next
    fix k k' q
    assume a: "calls ?d k = Some q \<and> calls ?d k' = Some q"
    show "k = k'"
    proof (cases "k = callid \<or> k' = callid")
      case False
      with a have "calls c k = Some q" "calls c k' = Some q" by (auto simp add: cl split: if_splits)
      then show ?thesis by (rule inj)
    next
      case True
      with a have q: "q = p" by (auto simp add: cl split: if_splits)
      have "k'' = callid" if "calls ?d k'' = Some p" for k''
      proof (rule ccontr)
        assume "k'' \<noteq> callid"
        with that have "calls c k'' = Some p" "k'' \<noteq> chanKey params"
          by (auto simp add: cl split: if_splits)
        with inj [OF this(1) p] show False by simp
      qed
      with a q show ?thesis by blast
    qed
  qed
qed

lemma Dial_finish_ok: "registry_ok c \<Longrightarrow> registry_ok (snd (Dial_finish params res c))"
  by (simp add: Dial_finish_def Let_def registry_ok_delete Dial_promote_ok
      split: sum.split option.split jvalue.split)

lemma Accept_finish_ok: "registry_ok c \<Longrightarrow> registry_ok (snd (Accept_finish callid creds res c))"
  by (auto simp add: Accept_finish_def registry_ok_def upd_Call_def split: sum.split option.split)

lemma Hangup_finish_ok: "registry_ok c \<Longrightarrow> registry_ok (snd (Hangup_finish callid res c))"
  by (simp add: Hangup_finish_def registry_ok_delete split: sum.split option.split)



lemma readLoop_msg_ok:
  assumes ok: "registry_ok c" and step: "readLoop_msg m c = Some c'"
  shows "registry_ok c'"
proof (cases m)
  case None
  then show ?thesis using ok step by (simp add: readLoop_msg_eq)
next
  case (Some parsed)
  show ?thesis
  proof (cases "if str_field parsed ''request_id'' \<noteq> ''''
                then map_of (pending c) (str_field parsed ''request_id'') else None")
    case None
    then have "c' = handleEvent parsed c" using step Some by (simp add: readLoop_msg_eq)
    then show ?thesis using ok by (simp add: handleEvent_ok)
  next
    case (Some ch)
    then have "calls c' = calls c \<and> heap c' = heap c \<and> next_addr c' = next_addr c"
      using step \<open>m = Some parsed\<close>
      by (auto simp add: readLoop_msg_eq chan_send_def pending_delete_def split: if_splits)
    then show ?thesis using ok registry_ok_cong [of c' c] by simp
  qed
qed

text \<open>
  When \<open>handleEvent\<close> runs in one turn on a registry that holds no record in state
  \<open>hangup\<close>, the registry holds none afterwards. A \<open>call_hangup\<close> event then sets the state
  of the record it is for to \<open>hangup\<close> and, in the critical section of its case, deletes the
  call id key and the \<open>channel:uid\<close> key of the record: afterwards no key of the registry
  leads to the record, and the hangup callback has been invoked with it.
\<close>

lemma handleEvent_hangup_in_one_turn:
  assumes ok: "registry_ok c"
  shows "(\<forall>k p. calls (handleEvent msg c) k = Some p \<longrightarrow>
                 State (heap (handleEvent msg c) p) \<noteq> ''hangup'') \<and>
         (\<forall>h p. handler c = Some h \<and> str_field msg ''event'' = ''call_hangup'' \<and>
                 fst (find_call (str_field msg ''callid'') (str_field msg ''channel'')
                        (str_field msg ''uid'') c) = Some p \<longrightarrow>
            State (heap (handleEvent msg c) p) = ''hangup'' \<and>
            calls (handleEvent msg c) (str_field msg ''callid'') = None \<and>
            (Channel (heap (handleEvent msg c) p) \<noteq> '''' \<and> UID (heap (handleEvent msg c) p) \<noteq> ''''
               \<longrightarrow> calls (handleEvent msg c)
                     (Channel (heap (handleEvent msg c) p) @ '':'' @ UID (heap (handleEvent msg c) p))
                   = None) \<and>
            (\<forall>k. calls (handleEvent msg c) k \<noteq> Some p) \<and>
            callbacks (handleEvent msg c) = callbacks c @ [OnCallHangup p])"
proof -
  let ?cid = "str_field msg ''callid''" and ?ch = "str_field msg ''channel''"
    and ?uid = "str_field msg ''uid''"
  let ?c1 = "snd (find_call ?cid ?ch ?uid c)"
  have "registry_ok (handleEvent msg c)" using ok by (rule handleEvent_ok)
  then have b: "\<forall>k p. calls (handleEvent msg c) k = Some p \<longrightarrow>
                 State (heap (handleEvent msg c) p) \<noteq> ''hangup''"
    unfolding registry_ok_def by blast
  have c: "State (heap (handleEvent msg c) p) = ''hangup'' \<and>
            calls (handleEvent msg c) ?cid = None \<and>
            (Channel (heap (handleEvent msg c) p) \<noteq> '''' \<and> UID (heap (handleEvent msg c) p) \<noteq> ''''
               \<longrightarrow> calls (handleEvent msg c)
                     (Channel (heap (handleEvent msg c) p) @ '':'' @ UID (heap (handleEvent msg c) p))
                   = None) \<and>
            (\<forall>k. calls (handleEvent msg c) k \<noteq> Some p) \<and>
            callbacks (handleEvent msg c) = callbacks c @ [OnCallHangup p]"
    if h: "handler c = Some h" and ev: "str_field msg ''event'' = ''call_hangup''"
      and p: "fst (find_call ?cid ?ch ?uid c) = Some p" for h p
  proof -
    let ?c2 = "upd_Call p (merge_fields msg ?cid ?ch ?uid) ?c1"
    note fc = find_call_ok [OF ok p]
    have ok2: "registry_ok ?c2"
      using fc by (intro registry_ok_upd) (auto simp add: merge_fields_eq registry_ok_def)
    have key: "calls ?c2 ?cid = Some p \<or>
              Channel (heap ?c2 p) \<noteq> '''' \<and> UID (heap ?c2 p) \<noteq> '''' \<and>
              calls ?c2 (Channel (heap ?c2 p) @ '':'' @ UID (heap ?c2 p)) = Some p"
      using fc by (auto simp add: upd_Call_def merge_fields_eq)
    have he: "handleEvent msg c = dispatch h msg ''call_hangup'' ?cid p ?c2"
      by (simp add: handleEvent_Some [OF h p] ev)
    have cb: "callbacks ?c2 = callbacks c" by (simp add: upd_Call_def find_call_comm)
    from hangup_removes [OF ok2 key, of h msg] show ?thesis
      by (simp add: he cb)
  qed
  from b c show ?thesis by blast
qed

subsection \<open>The registry in the states a client reaches\<close>















text \<open>
  The critical section of the case \<open>call_hangup\<close> (lines 823-829), in any state and for any
  record: it sets the state and deletes the key of the call id and the \<open>channel:uid\<close> key
  of the record, and no other key. A record that is stored under a third key at that moment
  stays in the registry.
\<close>

lemma hangup_section:
  "State (heap (switch_section ''call_hangup'' callid p c) p) = ''hangup'' \<and>
   calls (switch_section ''call_hangup'' callid p c) callid = None \<and>
   (Channel (heap c p) \<noteq> '''' \<and> UID (heap c p) \<noteq> '''' \<longrightarrow>
      calls (switch_section ''call_hangup'' callid p c) (Channel (heap c p) @ '':'' @ UID (heap c p))
        = None) \<and>
   (k \<noteq> callid \<and> k \<noteq> Channel (heap c p) @ '':'' @ UID (heap c p) \<longrightarrow>
      calls (switch_section ''call_hangup'' callid p c) k = calls c k) \<and>
   reg_ops (switch_section ''call_hangup'' callid p c) =
     reg_ops c @ RegDelete callid #
       (if Channel (heap c p) \<noteq> '''' \<and> UID (heap c p) \<noteq> ''''
        then [RegDelete (Channel (heap c p) @ '':'' @ UID (heap c p))] else [])"
  by (simp add: switch_section_def Let_def upd_Call_def reg_delete_def)

subsection \<open>The channel \<open>done\<close>\<close>

lemma done_ok_cong:
  "done_closed c' = done_closed c \<Longrightarrow> done_closes c' = done_closes c \<Longrightarrow> done_ok c' = done_ok c"
  by (simp add: done_ok_def)

lemma running_done_ok: "running l c \<Longrightarrow> done_ok c"
proof (induction rule: running.induct)
  case (run_new url tok cid app)
  then show ?case by (simp add: done_ok_def NewClient_def)
next
  case (run_handler l c h)
  then show ?case by (simp add: done_ok_def SetHandler_def)
next
  case (run_connect l c cn sid)
  then show ?case
    by (simp add: done_ok_def Connect_registered_def Let_def notify_def split: option.split)
next
  case (run_close l c e)
  then show ?case by (simp add: done_ok_def Close_fields)
next
  case (run_read_error l c)
  then show ?case
    by (simp add: done_ok_def readLoop_read_error_def readLoop_exit_def drain_pending_frame
        notify_def split: option.split)
next
  case (run_read_exit l c)
  then show ?case by (simp add: done_ok_def readLoop_exit_def drain_pending_frame)
next
  case (run_deliver l c parsed ch c')
  then have "done_closed c' = done_closed c \<and> done_closes c' = done_closes c"
    by (auto simp add: readLoop_deliver_def chan_send_def pending_delete_def split: if_splits)
  with run_deliver show ?case using done_ok_cong [of c' c] by simp
next
  case (run_event l c msg)
  then show ?case by simp
next
  case (run_fetch l1 msg l2 c)
  then show ?case by simp
next
  case (run_lookup l1 h msg l2 c r c')
  then have "c' = snd (handleEvent_lookup msg c)" by simp
  with run_lookup show ?case using done_ok_cong [of c' c] by (simp add: event_steps_comm)
next
  case (run_section l1 h msg p l2 c)
  then show ?case
    using done_ok_cong [of "switch_section (str_field msg ''event'') (str_field msg ''callid'') p c" c]
    by (simp add: event_steps_comm)
next
  case (run_callback l1 h msg p l2 c claimed c')
  then have "c' = snd (switch_callback h msg (str_field msg ''event'') p c)" by simp
  with run_callback show ?case using done_ok_cong [of c' c] by (simp add: event_steps_comm)
next
  case (run_decline l1 msg l2 c)
  then show ?case using done_ok_cong [of "reg_delete (str_field msg ''callid'') c" c]
    by (simp add: event_steps_comm)
next
  case (run_issue l c action msg ok)
  then show ?case
    by (simp add: done_ok_def sendCommand_issue_def Let_def make_chan_def pending_delete_def
        split: option.split)
next
  case (run_select l c reqID ch sel res c')
  then have "done_closed c' = done_closed c \<and> done_closes c' = done_closes c"
    by (auto simp add: sendCommand_select_def chan_recv_def pending_delete_def
        split: select_case.splits list.splits)
  with run_select show ?case using done_ok_cong [of c' c] by simp
next
  case (run_dial_begin l c params)
  then show ?case using done_ok_cong [of "Dial_begin params c" c]
    by (simp add: registry_steps_comm)
next
  case (run_dial_finish l c params res)
  then show ?case using done_ok_cong [of "snd (Dial_finish params res c)" c]
    by (simp add: registry_steps_comm)
next
  case (run_accept_finish l c callid creds res)
  then show ?case using done_ok_cong [of "snd (Accept_finish callid creds res c)" c]
    by (simp add: registry_steps_comm)
next
  case (run_hangup_finish l c callid res)
  then show ?case using done_ok_cong [of "snd (Hangup_finish callid res c)" c]
    by (simp add: registry_steps_comm)
qed

lemma reachable_done_ok: "reachable c \<Longrightarrow> done_ok c"
  by (auto simp add: reachable_def running_done_ok)

subsection \<open>Declined incoming calls\<close>





subsection \<open>Turns of the client, and operations run in one turn\<close>

lemma r_new: "reachable (NewClient url tok cid app)"
  unfolding reachable_def by (rule exI) (rule run_new)

lemma r_handler: "reachable c \<Longrightarrow> reachable (SetHandler h c)"
  unfolding reachable_def by (blast intro: run_handler)

lemma r_connect: "reachable c \<Longrightarrow> reachable (Connect_registered cn sid c)"
  unfolding reachable_def by (blast intro: run_connect)

lemma r_close: "reachable c \<Longrightarrow> reachable (snd (Close e c))"
  unfolding reachable_def by (blast intro: run_close)

lemma r_read_error: "reachable c \<Longrightarrow> reachable (readLoop_read_error c)"
  unfolding reachable_def by (blast intro: run_read_error)

lemma r_read_exit: "reachable c \<Longrightarrow> reachable (readLoop_exit c)"
  unfolding reachable_def by (blast intro: run_read_exit)

lemma r_issue: "reachable c \<Longrightarrow> reachable (snd (sendCommand_issue action msg ok c))"
  unfolding reachable_def by (blast intro: run_issue)

lemma r_select:
  "reachable c \<Longrightarrow> sendCommand_select reqID ch sel c = Some (res, c') \<Longrightarrow> reachable c'"
  unfolding reachable_def by (blast intro: run_select)

lemma r_dial_begin: "reachable c \<Longrightarrow> reachable (Dial_begin params c)"
  unfolding reachable_def by (blast intro: run_dial_begin)

lemma r_dial_finish: "reachable c \<Longrightarrow> reachable (snd (Dial_finish params res c))"
  unfolding reachable_def by (blast intro: run_dial_finish)

lemma r_accept_finish: "reachable c \<Longrightarrow> reachable (snd (Accept_finish callid creds res c))"
  unfolding reachable_def by (blast intro: run_accept_finish)

lemma r_hangup_finish: "reachable c \<Longrightarrow> reachable (snd (Hangup_finish callid res c))"
  unfolding reachable_def by (blast intro: run_hangup_finish)

text \<open>The switch of a run of \<open>handleEvent\<close> that has found its record, taken in one turn.\<close>

lemma running_dispatch:
  assumes r: "running (Found h msg p # l) c"
  shows "running l (dispatch h msg (str_field msg ''event'') (str_field msg ''callid'') p c)"
proof -
  let ?e = "str_field msg ''event''" and ?cid = "str_field msg ''callid''"
  let ?c1 = "switch_section ?e ?cid p c"
  obtain claimed c2 where cb: "switch_callback h msg ?e p ?c1 = (claimed, c2)"
    by (cases "switch_callback h msg ?e p ?c1")
  have r1: "running ([] @ Updated h msg p # l) ?c1"
    using run_section [of "[]" h msg p l c] r by simp
  have r2: "running ([] @ (if claimed then [] else [Declined msg]) @ l) c2"
    using r1 cb by (rule run_callback)
  have d: "dispatch h msg ?e ?cid p c = (if \<not> claimed then reg_delete ?cid c2 else c2)"
    by (simp add: dispatch_def Let_def cb)
  show ?thesis
  proof (cases claimed)
    case True
    then show ?thesis using r2 d by simp
  next
    case False
    then have "running ([] @ Declined msg # l) c2" using r2 by simp
    then have "running ([] @ l) (reg_delete ?cid c2)" by (rule run_decline)
    then show ?thesis using False d by simp
  qed
qed

text \<open>A message read and handled in one turn.\<close>

lemma running_handleEvent:
  assumes r: "running l c" and np: "pending_reply msg c = None"
  shows "running l (handleEvent msg c)"
proof -
  have r1: "running ([] @ Event msg # l) c" using r np by (simp add: run_event)
  show ?thesis
  proof (cases "handler c")
    case None
    then show ?thesis using r by (simp add: handleEvent_def)
  next
    case (Some h)
    have r2: "running ([] @ Handling h msg # l) c"
      using run_fetch [OF r1] Some by simp
    obtain f c1 where lk: "handleEvent_lookup msg c = (f, c1)"
      by (cases "handleEvent_lookup msg c")
    have r3: "running ([] @ (case f of None \<Rightarrow> [] | Some p \<Rightarrow> [Found h msg p]) @ l) c1"
      using r2 lk by (rule run_lookup)
    show ?thesis
    proof (cases f)
      case None
      then show ?thesis using r3 lk Some by (simp add: handleEvent_def)
    next
      case (Some p)
      then have "running (Found h msg p # l) c1" using r3 by simp
      then have "running l (dispatch h msg (str_field msg ''event'') (str_field msg ''callid'') p c1)"
        by (rule running_dispatch)
      then show ?thesis using lk Some \<open>handler c = Some h\<close> by (simp add: handleEvent_def)
    qed
  qed
qed

lemma running_msg:
  assumes r: "running l c" and step: "readLoop_msg m c = Some c'"
  shows "running l c'"
proof (cases m)
  case None
  then show ?thesis using r step by (simp add: readLoop_msg_def)
next
  case (Some parsed)
  show ?thesis
  proof (cases "pending_reply parsed c")
    case (Some ch)
    then have "readLoop_deliver parsed ch c = Some c'"
      using step \<open>m = Some parsed\<close> by (simp add: readLoop_msg_def)
    with r Some show ?thesis by (rule run_deliver)
  next
    case None
    then have "c' = handleEvent parsed c"
      using step \<open>m = Some parsed\<close> by (simp add: readLoop_msg_def)
    then show ?thesis using running_handleEvent [OF r None] by simp
  qed
qed

lemma r_msg: "reachable c \<Longrightarrow> readLoop_msg m c = Some c' \<Longrightarrow> reachable c'"
  unfolding reachable_def by (blast intro: running_msg)

subsection \<open>Repeated \<open>Close\<close>, and examples\<close>

lemma reachable_demo_client: "reachable demo_client"
  unfolding demo_client_def fresh_client_def
  by (rule r_connect r_handler r_new)+

lemma reachable_two_waiters: "reachable two_waiters"
  unfolding two_waiters_def
  by (rule r_issue reachable_demo_client)+

text \<open>
  \<^bold>\<open>C9.\<close> After \<open>Close\<close> the connected flag is false, \<open>done\<close> is closed, the pending
  table has been swept and the connection is cleared and has been closed. The sweep sends
  nil to every channel of the table that has room and leaves the table empty; in a state the
  client can reach every waiting command then finds nil in its channel and returns the
  connection-lost error. Any number of further calls leave that state as it is and return
  nil, without a panic; \<open>close(c.done)\<close> is executed only when \<open>done\<close> is open, so exactly
  once in the life of a client.
\<close>

theorem Close_is_idempotent:
  "snd (Close_all (e # es) c) = snd (Close e c) \<and>
   fst (Close_all (e # es) c) = fst (Close e c) # replicate (length es) (Inr None) \<and>
   fst (Close e c) = Inr (case conn c of None \<Rightarrow> None | Some n \<Rightarrow> e) \<and>
   \<not> connected (snd (Close e c)) \<and> done_closed (snd (Close e c)) \<and>
   done_closes (snd (Close e c)) = (if done_closed c then done_closes c else Suc (done_closes c)) \<and>
   pending (snd (Close e c)) = [] \<and> conn (snd (Close e c)) = None \<and>
   closed_conns (snd (Close e c)) =
     closed_conns c @ (case conn c of None \<Rightarrow> [] | Some n \<Rightarrow> [n]) \<and>
   (\<forall>ch. chans (snd (Close_all (e # es) c)) ch =
      (if ch \<in> snd ` set (pending c) \<and> chans c ch = [] then [None] else chans c ch)) \<and>
   (reachable c \<longrightarrow>
      done_closes (snd (Close_all (e # es) c)) = 1 \<and>
      (\<forall>w \<in> set (pending c).
         chans (snd (Close_all (e # es) c)) (snd w) = [None] \<and>
         map_option fst (sendCommand_select (fst w) (snd w) RecvResp (snd (Close_all (e # es) c))) =
           Some (Inl ConnectionLost)))"
proof -
  have all: "Close_all (e # es) c =
          (fst (Close e c) # replicate (length es) (Inr None), snd (Close e c))"
    by (simp add: split_beta Close_all_after_Close)
  have d: "done_closes (snd (Close e c)) = 1" if "reachable c"
    using reachable_done_ok [OF that] by (simp add: Close_fields done_ok_def)
  have w: "chans (snd (Close e c)) (snd w) = [None] \<and>
           map_option fst (sendCommand_select (fst w) (snd w) RecvResp (snd (Close e c))) =
             Some (Inl ConnectionLost)"
    if r: "reachable c" and w: "w \<in> set (pending c)" for w
  proof -
    have "chans c (snd w) = []"
      using reachable_pending_ok [OF r] w by (auto simp add: pending_ok_def)
    with w have "chans (snd (Close e c)) (snd w) = [None]" by (simp add: Close_chans)
    then show ?thesis by (simp add: sendCommand_select_def chan_recv_def)
  qed
  have S: "snd (Close_all (e # es) c) = snd (Close e c)"
    and F: "fst (Close_all (e # es) c) = fst (Close e c) # replicate (length es) (Inr None)"
    by (simp_all only: all fst_conv snd_conv)
  have general: "fst (Close e c) = Inr (case conn c of None \<Rightarrow> None | Some n \<Rightarrow> e) \<and>
   \<not> connected (snd (Close e c)) \<and> done_closed (snd (Close e c)) \<and>
   done_closes (snd (Close e c)) = (if done_closed c then done_closes c else Suc (done_closes c)) \<and>
   pending (snd (Close e c)) = [] \<and> conn (snd (Close e c)) = None \<and>
   closed_conns (snd (Close e c)) =
     closed_conns c @ (case conn c of None \<Rightarrow> [] | Some n \<Rightarrow> [n]) \<and>
   (\<forall>ch. chans (snd (Close e c)) ch =
      (if ch \<in> snd ` set (pending c) \<and> chans c ch = [] then [None] else chans c ch))"
    by (simp add: Close_fst Close_fields Close_chans)
  from d w have reach: "reachable c \<longrightarrow>
      done_closes (snd (Close e c)) = 1 \<and>
      (\<forall>w \<in> set (pending c).
         chans (snd (Close e c)) (snd w) = [None] \<and>
         map_option fst (sendCommand_select (fst w) (snd w) RecvResp (snd (Close e c))) =
           Some (Inl ConnectionLost))"
    by blast
  show ?thesis
    unfolding S F using general reach by blast
qed

text \<open>Three calls of \<open>Close\<close> on a client with two waiting commands.\<close>

theorem Close_is_idempotent_witness:
  "reachable two_waiters \<and>
   pending two_waiters = [(''outbound_1'', 0), (''reject_2'', 1)] \<and>
   chans two_waiters 0 = [] \<and> chans two_waiters 1 = [] \<and>
   snd (Close_all [None, None, None] two_waiters) = snd (Close None two_waiters) \<and>
   fst (Close_all [None, None, None] two_waiters) = [Inr None, Inr None, Inr None] \<and>
   done_closes (snd (Close_all [None, None, None] two_waiters)) = 1 \<and>
   pending (snd (Close None two_waiters)) = [] \<and>
   chans (snd (Close_all [None, None, None] two_waiters)) 0 = [None] \<and>
   chans (snd (Close_all [None, None, None] two_waiters)) 1 = [None] \<and>
   map_option fst (sendCommand_select ''outbound_1'' 0 RecvResp
                     (snd (Close_all [None, None, None] two_waiters))) = Some (Inl ConnectionLost) \<and>
   map_option fst (sendCommand_select ''reject_2'' 1 RecvResp
                     (snd (Close_all [None, None, None] two_waiters))) = Some (Inl ConnectionLost)"
proof -
  have c: "conn two_waiters = Some 1" "\<not> done_closed two_waiters" "done_closes two_waiters = 0"
    by code_simp+
  have p: "pending two_waiters = [(''outbound_1'', 0), (''reject_2'', 1)]" by code_simp
  have e: "chans two_waiters 0 = []" "chans two_waiters 1 = []" by code_simp+
  note T = Close_is_idempotent [of None "[None, None]" two_waiters]
  from T have S: "snd (Close_all [None, None, None] two_waiters) = snd (Close None two_waiters)"
    by (elim conjE)
  from T have F: "fst (Close_all [None, None, None] two_waiters) =
      fst (Close None two_waiters) # replicate (length ([None, None] :: error option list)) (Inr None)"
    by (elim conjE)
  from T have F1: "fst (Close None two_waiters) =
      Inr (case conn two_waiters of None \<Rightarrow> None | Some n \<Rightarrow> None)"
    by (elim conjE)
  from T have P: "pending (snd (Close None two_waiters)) = []"
    by (elim conjE)
  from T have "reachable two_waiters \<longrightarrow>
      done_closes (snd (Close_all [None, None, None] two_waiters)) = 1 \<and>
      (\<forall>w \<in> set (pending two_waiters).
         chans (snd (Close_all [None, None, None] two_waiters)) (snd w) = [None] \<and>
         map_option fst (sendCommand_select (fst w) (snd w) RecvResp
                           (snd (Close_all [None, None, None] two_waiters))) =
           Some (Inl ConnectionLost))"
    by (elim conjE)
  with reachable_two_waiters have R: "done_closes (snd (Close_all [None, None, None] two_waiters)) = 1 \<and>
      (\<forall>w \<in> set (pending two_waiters).
         chans (snd (Close_all [None, None, None] two_waiters)) (snd w) = [None] \<and>
         map_option fst (sendCommand_select (fst w) (snd w) RecvResp
                           (snd (Close_all [None, None, None] two_waiters))) =
           Some (Inl ConnectionLost))"
    by (rule mp [rotated])
  show ?thesis
    using reachable_two_waiters p e S F F1 P R c
    by (simp del: Close_all.simps)
qed

text \<open>Two commands are waiting when the read loop exits; both get the connection-lost error.\<close>

theorem sweep_unblocks_every_waiter_witness:
  "reachable two_waiters \<and>
   pending two_waiters = [(''outbound_1'', 0), (''reject_2'', 1)] \<and>
   pending (readLoop_exit two_waiters) = [] \<and>
   \<not> connected (readLoop_exit two_waiters) \<and>
   chans (readLoop_exit two_waiters) 0 = [None] \<and>
   chans (readLoop_exit two_waiters) 1 = [None] \<and>
   map_option fst (sendCommand_select ''outbound_1'' 0 RecvResp (readLoop_exit two_waiters)) =
     Some (Inl ConnectionLost) \<and>
   map_option fst (sendCommand_select ''reject_2'' 1 RecvResp (readLoop_exit two_waiters)) =
     Some (Inl ConnectionLost)"
proof -
  have p: "pending two_waiters = [(''outbound_1'', 0), (''reject_2'', 1)]" by code_simp
  show ?thesis
    using sweep_unblocks_every_waiter [OF reachable_two_waiters, of "readLoop_exit two_waiters"]
      reachable_two_waiters p
    by simp
qed


subsection \<open>Examples for the commands and the events\<close>

lemma reachable_sendCommand:
  assumes r: "reachable c"
  shows "reachable (snd (sendCommand a m oc c))"
proof -
  let ?w = "case oc of WriteFails \<Rightarrow> False | _ \<Rightarrow> True"
  obtain res c1 where i: "sendCommand_issue a m ?w c = (res, c1)" by (cases "sendCommand_issue a m ?w c")
  have r1: "reachable c1" using r_issue [OF r, of a m ?w] i by simp
  show ?thesis
  proof (cases res)
    case (Inl e)
    then show ?thesis using r1 i by (simp add: sendCommand_def)
  next
    case (Inr kc)
    obtain k ch where kc: "kc = (k, ch)" by (cases kc)
    let ?c2 = "case oc of
                 Reply rp \<Rightarrow>
                   (case readLoop_msg (Some (rp(''request_id'' \<mapsto> JString k))) c1 of
                      Some c' \<Rightarrow> c' | None \<Rightarrow> c1)
               | ConnLost \<Rightarrow> readLoop_read_error c1
               | _ \<Rightarrow> c1"
    let ?sel = "case oc of Cancelled \<Rightarrow> CtxDone | TimedOut \<Rightarrow> DeadlineFired | _ \<Rightarrow> RecvResp"
    have r2: "reachable ?c2"
      using r1 r_msg [OF r1] r_read_error [OF r1]
      by (auto split: outcome.split option.split)
    have eq: "sendCommand a m oc c =
        (case sendCommand_select k ch ?sel ?c2 of
           Some res \<Rightarrow> res
         | None \<Rightarrow> (Inl CommandTimeout, pending_delete k ?c2))"
      using i Inr kc by (simp add: sendCommand_def Let_def)
    show ?thesis
    proof (cases "sendCommand_select k ch ?sel ?c2")
      case None
      have "sendCommand_select k ch DeadlineFired ?c2 = Some (Inl CommandTimeout, pending_delete k ?c2)"
        by (simp add: sendCommand_select_def)
      from r_select [OF r2 this] show ?thesis using None eq by simp
    next
      case (Some x)
      obtain rs c3 where x: "x = (rs, c3)" by (cases x)
      from r_select [OF r2 Some [unfolded x]] show ?thesis using Some eq x by simp
    qed
  qed
qed

lemma reachable_Dial: "reachable c \<Longrightarrow> reachable (snd (Dial params oc c))"
  by (simp add: Dial_eq r_dial_finish r_dial_begin reachable_sendCommand)

lemma reachable_Hangup: "reachable c \<Longrightarrow> reachable (snd (Hangup callid oc c))"
  by (simp add: Hangup_eq r_hangup_finish reachable_sendCommand)

lemma reachable_outbound_call: "reachable outbound_call"
  unfolding outbound_call_def by (rule reachable_Dial) (rule reachable_demo_client)

lemma running_demo_client: "running [] demo_client"
  unfolding demo_client_def fresh_client_def
  by (rule run_connect run_handler run_new)+

lemma running_dial_replied: "running [] dial_replied"
proof -
  let ?c2 = "snd (sendCommand_issue ''outbound'' (Dial_msg demo_dial) True
                    (Dial_begin demo_dial demo_client))"
  have r2: "running [] ?c2"
    by (rule run_issue run_dial_begin running_demo_client)+
  show ?thesis
    unfolding dial_replied_def Let_def
    using r2 running_msg [OF r2]
    by (auto split: option.split)
qed

text \<open>
  \<^bold>\<open>C3\<close> does not hold of the client. The case \<open>call_hangup\<close> sets the state and deletes
  the call id key and the \<open>channel:uid\<close> key in one critical section, but the record was
  looked up in an earlier one. In the run below the reply of \<open>Dial\<close> is taken between
  the two: \<open>Dial\<close> stores the record under the call id \<open>C1\<close> and deletes the key
  \<open>ch1:100\<close>, and the hangup event, which carries no call id, then deletes no key that
  leads to the record. The state is one the client reaches, and its registry holds the
  record under \<open>C1\<close> in state \<open>hangup\<close>. The same event handled in one turn removes the
  record.
\<close>

theorem hangup_entry_left_after_promotion:
  "reachable hangup_late \<and>
   calls dial_replied ''ch1:100'' = Some 0 \<and> calls dial_replied ''C1'' = None \<and>
   fst hangup_found = Some 0 \<and>
   calls dial_returned ''C1'' = Some 0 \<and> calls dial_returned ''ch1:100'' = None \<and>
   State (heap dial_returned 0) = ''ringing'' \<and>
   calls hangup_late ''C1'' = Some 0 \<and> State (heap hangup_late 0) = ''hangup'' \<and>
   CallID (heap hangup_late 0) = ''C1'' \<and>
   callbacks hangup_late = [OnConnected ''session-1'', OnCallHangup 0] \<and>
   calls (handleEvent hangup_ch1 dial_replied) ''ch1:100'' = None \<and>
   calls (handleEvent hangup_ch1 dial_replied) ''C1'' = None"
proof -
  have "case handler dial_replied of None \<Rightarrow> False | Some h \<Rightarrow> True" by code_simp
  then obtain h where h: "handler dial_replied = Some h" by (auto split: option.splits)
  have f: "fst hangup_found = Some 0" by code_simp
  have np: "pending_reply hangup_ch1 dial_replied = None" by code_simp
  have "running ([] @ Event hangup_ch1 # []) dial_replied"
    using running_dial_replied np by (simp add: run_event)
  from run_fetch [OF this] have "running ([] @ Handling h hangup_ch1 # []) dial_replied"
    using h by simp
  moreover have "handleEvent_lookup hangup_ch1 dial_replied = (Some 0, snd hangup_found)"
    using f by (simp add: hangup_found_def prod_eq_iff)
  ultimately have
    "running ([] @ (case Some 0 of None \<Rightarrow> [] | Some p \<Rightarrow> [Found h hangup_ch1 p]) @ [])
       (snd hangup_found)"
    by (rule run_lookup)
  then have r4: "running [Found h hangup_ch1 0] (snd hangup_found)" by simp
  have r6: "running [Found h hangup_ch1 0] dial_returned"
  proof (cases "sendCommand_select ''outbound_1'' 0 RecvResp (snd hangup_found)")
    case None
    then show ?thesis using r4 by (simp add: dial_returned_def)
  next
    case (Some x)
    obtain res c where x: "x = (res, c)" by (cases x)
    have "running [Found h hangup_ch1 0] c" using r4 Some [unfolded x] by (rule run_select)
    then have "running [Found h hangup_ch1 0] (snd (Dial_finish demo_dial res c))"
      by (rule run_dial_finish)
    then show ?thesis using Some x by (simp add: dial_returned_def)
  qed
  have "running [] (dispatch h hangup_ch1 (str_field hangup_ch1 ''event'')
                      (str_field hangup_ch1 ''callid'') 0 dial_returned)"
    using r6 by (rule running_dispatch)
  then have "running [] hangup_late" using f h by (simp add: hangup_late_def)
  then have a: "reachable hangup_late" unfolding reachable_def by (rule exI)
  have b: "calls dial_replied ''ch1:100'' = Some 0 \<and> calls dial_replied ''C1'' = None \<and>
   fst hangup_found = Some 0 \<and>
   calls dial_returned ''C1'' = Some 0 \<and> calls dial_returned ''ch1:100'' = None \<and>
   State (heap dial_returned 0) = ''ringing'' \<and>
   calls hangup_late ''C1'' = Some 0 \<and> State (heap hangup_late 0) = ''hangup'' \<and>
   CallID (heap hangup_late 0) = ''C1'' \<and>
   callbacks hangup_late = [OnConnected ''session-1'', OnCallHangup 0] \<and>
   calls (handleEvent hangup_ch1 dial_replied) ''ch1:100'' = None \<and>
   calls (handleEvent hangup_ch1 dial_replied) ''C1'' = None"
    by code_simp
  from a b show ?thesis by (rule conjI)
qed

text \<open>The dial of the first scenario, answered with call id \<open>C1\<close>, and the same dial cut
  off by a connection loss.\<close>

theorem Dial_provisional_and_promotion_witness:
  "connected demo_client \<and> conn demo_client \<noteq> None \<and>
   calls (Dial_begin demo_dial demo_client) ''ch1:100'' = Some 0 \<and>
   State (heap (Dial_begin demo_dial demo_client) 0) = ''ringing'' \<and>
   Direction (heap (Dial_begin demo_dial demo_client) 0) = ''outbound'' \<and>
   calls (snd (Dial demo_dial (Reply dial_reply_C1) demo_client)) ''ch1:100'' = None \<and>
   calls (snd (Dial demo_dial (Reply dial_reply_C1) demo_client)) ''C1'' = Some 0 \<and>
   CallID (heap (snd (Dial demo_dial (Reply dial_reply_C1) demo_client)) 0) = ''C1'' \<and>
   fst (Dial demo_dial ConnLost demo_client) = Inl ConnectionLost \<and>
   calls (snd (Dial demo_dial ConnLost demo_client)) ''ch1:100'' = None \<and>
   calls (snd (Dial demo_dial ConnLost demo_client)) ''C1'' = None"
proof -
  note T = Dial_provisional_and_promotion [of demo_dial demo_client "Reply dial_reply_C1"]
  note L = Dial_provisional_and_promotion [of demo_dial demo_client ConnLost]
  have cn: "connected demo_client \<and> conn demo_client \<noteq> None" by code_simp
  have key: "chanKey demo_dial = ''ch1:100''" by code_simp
  have na: "next_addr demo_client = 0" by code_simp
  have none: "calls demo_client ''C1'' = None" by code_simp
  have d: "dial_reply_C1 ''data'' =
             Some (JObject [''success'' \<mapsto> JBool True, ''callid'' \<mapsto> JString ''C1''])"
    by (simp add: dial_reply_C1_def)
  have cid: "str_field [''success'' \<mapsto> JBool True, ''callid'' \<mapsto> JString ''C1''] ''callid'' = ''C1''"
    by (simp add: str_field_def)
  from T have t9: "connected demo_client \<and> conn demo_client \<noteq> None \<longrightarrow>
      (Reply dial_reply_C1 = WriteFails \<longrightarrow>
         fst (Dial demo_dial (Reply dial_reply_C1) demo_client) = Inl SendFailed) \<and>
      (Reply dial_reply_C1 = ConnLost \<longrightarrow>
         fst (Dial demo_dial (Reply dial_reply_C1) demo_client) = Inl ConnectionLost) \<and>
      (\<forall>resp data. Reply dial_reply_C1 = Reply resp \<and> resp ''data'' = Some (JObject data) \<longrightarrow>
         (\<exists>r. fst (Dial demo_dial (Reply dial_reply_C1) demo_client) = Inr r \<and>
              CallID_r r = str_field data ''callid'' \<and> Success r = bool_field data ''success'')) \<and>
      (\<forall>resp. Reply dial_reply_C1 = Reply resp \<and> (\<forall>data. resp ''data'' \<noteq> Some (JObject data)) \<longrightarrow>
         (\<exists>r. fst (Dial demo_dial (Reply dial_reply_C1) demo_client) = Inr r \<and> CallID_r r = ''''))"
    by (elim conjE)
  with cn have "\<forall>resp data. Reply dial_reply_C1 = Reply resp \<and> resp ''data'' = Some (JObject data) \<longrightarrow>
         (\<exists>r. fst (Dial demo_dial (Reply dial_reply_C1) demo_client) = Inr r \<and>
              CallID_r r = str_field data ''callid'' \<and> Success r = bool_field data ''success'')"
    by simp
  with d obtain r where r: "fst (Dial demo_dial (Reply dial_reply_C1) demo_client) = Inr r"
    and "CallID_r r = str_field [''success'' \<mapsto> JBool True, ''callid'' \<mapsto> JString ''C1''] ''callid''"
    by blast
  then have r2: "CallID_r r = ''C1''" by (simp only: cid)
  then have ne: "CallID_r r \<noteq> ''''" by simp
  from T have t8: "\<forall>r. fst (Dial demo_dial (Reply dial_reply_C1) demo_client) = Inr r \<and> CallID_r r \<noteq> '''' \<longrightarrow>
      calls (Dial_promote demo_dial (CallID_r r)
               (snd (sendCommand ''outbound'' (Dial_msg demo_dial) (Reply dial_reply_C1)
                      (Dial_begin demo_dial demo_client))))
        (CallID_r r) = Some (next_addr demo_client) \<and>
      calls (snd (Dial demo_dial (Reply dial_reply_C1) demo_client)) =
        (calls demo_client)(CallID_r r \<mapsto> next_addr demo_client, chanKey demo_dial := None) \<and>
      heap (snd (Dial demo_dial (Reply dial_reply_C1) demo_client)) (next_addr demo_client) =
        \<lparr>CallID = CallID_r r, State = ''ringing'', Direction = ''outbound'', From = From_p demo_dial,
         To = To_p demo_dial, Channel = Channel_p demo_dial, UID = UID_p demo_dial,
         AppID = AppID_p demo_dial\<rparr>"
    by (elim conjE)
  with r ne have
    p: "calls (snd (Dial demo_dial (Reply dial_reply_C1) demo_client)) =
          (calls demo_client)(CallID_r r \<mapsto> next_addr demo_client, chanKey demo_dial := None)"
    and hp: "heap (snd (Dial demo_dial (Reply dial_reply_C1) demo_client)) (next_addr demo_client) =
        \<lparr>CallID = CallID_r r, State = ''ringing'', Direction = ''outbound'', From = From_p demo_dial,
         To = To_p demo_dial, Channel = Channel_p demo_dial, UID = UID_p demo_dial,
         AppID = AppID_p demo_dial\<rparr>"
    by blast+
  from T have b: "calls (Dial_begin demo_dial demo_client) (chanKey demo_dial) = Some (next_addr demo_client)"
    by (elim conjE)
  from T have hb: "heap (Dial_begin demo_dial demo_client) (next_addr demo_client) =
     \<lparr>CallID = '''', State = ''ringing'', Direction = ''outbound'', From = From_p demo_dial,
      To = To_p demo_dial, Channel = Channel_p demo_dial, UID = UID_p demo_dial,
      AppID = AppID_p demo_dial\<rparr>"
    by (elim conjE)
  from L have l9: "connected demo_client \<and> conn demo_client \<noteq> None \<longrightarrow>
      (ConnLost = WriteFails \<longrightarrow> fst (Dial demo_dial ConnLost demo_client) = Inl SendFailed) \<and>
      (ConnLost = ConnLost \<longrightarrow> fst (Dial demo_dial ConnLost demo_client) = Inl ConnectionLost) \<and>
      (\<forall>resp data. ConnLost = Reply resp \<and> resp ''data'' = Some (JObject data) \<longrightarrow>
         (\<exists>r. fst (Dial demo_dial ConnLost demo_client) = Inr r \<and>
              CallID_r r = str_field data ''callid'' \<and> Success r = bool_field data ''success'')) \<and>
      (\<forall>resp. ConnLost = Reply resp \<and> (\<forall>data. resp ''data'' \<noteq> Some (JObject data)) \<longrightarrow>
         (\<exists>r. fst (Dial demo_dial ConnLost demo_client) = Inr r \<and> CallID_r r = ''''))"
    by (elim conjE)
  with cn have e: "fst (Dial demo_dial ConnLost demo_client) = Inl ConnectionLost"
    by simp
  from L have "\<forall>e. fst (Dial demo_dial ConnLost demo_client) = Inl e \<longrightarrow>
      calls (snd (Dial demo_dial ConnLost demo_client)) = (calls demo_client)(chanKey demo_dial := None)"
    by (elim conjE)
  with e have l: "calls (snd (Dial demo_dial ConnLost demo_client)) = (calls demo_client)(chanKey demo_dial := None)"
    by blast
  show ?thesis
    using cn b hb p hp e l none by (simp add: key na r2)
qed

text \<open>
  \<^bold>\<open>C5\<close> as stated does not hold: a \<open>call_ringing\<close> event that carries the direction
  \<open>outbound_sip\<close> changes the direction of the record that \<open>Dial\<close> created as \<open>outbound\<close>.
\<close>

theorem direction_changes_counterexample:
  "calls (Dial_begin demo_dial demo_client) ''ch1:100'' = Some 0 \<and>
   Direction (heap (Dial_begin demo_dial demo_client) 0) = ''outbound'' \<and>
   calls (handleEvent ringing_sip (Dial_begin demo_dial demo_client)) ''ch1:100'' = Some 0 \<and>
   Direction (heap (handleEvent ringing_sip (Dial_begin demo_dial demo_client)) 0) = ''outbound_sip'' \<and>
   Direction (heap (handleEvent ringing_sip (Dial_begin demo_dial demo_client)) 0) \<noteq>
     Direction (heap (Dial_begin demo_dial demo_client) 0)"
  by code_simp

text \<open>A \<open>call_answered\<close> event without a direction leaves the dialled call outbound.\<close>

theorem direction_after_creation_witness:
  "0 < next_addr (Dial_begin demo_dial demo_client) \<and>
   str_field answered_ch1 ''event'' \<noteq> ''call_incoming'' \<and>
   str_field answered_ch1 ''direction'' = '''' \<and>
   Direction (heap (Dial_begin demo_dial demo_client) 0) = ''outbound'' \<and>
   Direction (heap (handleEvent answered_ch1 (Dial_begin demo_dial demo_client)) 0) = ''outbound'' \<and>
   calls demo_client ''C2'' = None \<and>
   fst (find_call ''C2'' '''' '''' demo_client) = Some 0 \<and>
   Direction (heap (snd (find_call ''C2'' '''' '''' demo_client)) 0) = ''''"
proof -
  have na: "next_addr demo_client = 0" by code_simp
  have none: "calls demo_client ''C2'' = None" by code_simp
  from direction_after_creation [where c = demo_client and cid = "''C2''" and channel = "''''"
      and uid = "''''"] none
  have ev: "fst (find_call ''C2'' '''' '''' demo_client) = Some 0 \<and>
            Direction (heap (snd (find_call ''C2'' '''' '''' demo_client)) 0) = ''''"
    by (simp add: na)
  have h: "0 < next_addr (Dial_begin demo_dial demo_client)"
    "str_field answered_ch1 ''event'' \<noteq> ''call_incoming''"
    "str_field answered_ch1 ''direction'' = ''''"
    by code_simp+
  from direction_after_creation [of demo_dial demo_client]
  have d0: "Direction (heap (Dial_begin demo_dial demo_client) 0) = ''outbound''"
    by (simp only: na)
  from direction_after_creation [where c = "Dial_begin demo_dial demo_client" and p = 0
      and msg = answered_ch1] h
  have "Direction (heap (handleEvent answered_ch1 (Dial_begin demo_dial demo_client)) 0) =
        Direction (heap (Dial_begin demo_dial demo_client) 0)"
    by blast
  with d0 h none ev show ?thesis by simp
qed

text \<open>
  \<^bold>\<open>C6\<close> as stated does not hold: for the unknown call id \<open>C9\<close> the hangup callback is
  invoked.
\<close>

theorem hangup_unknown_call_counterexample:
  "handler demo_client \<noteq> None \<and>
   calls demo_client ''C9'' = None \<and>
   str_field hangup_C9 ''callid'' = ''C9'' \<and> str_field hangup_C9 ''channel'' = '''' \<and>
   callbacks demo_client = [OnConnected ''session-1''] \<and>
   callbacks (handleEvent hangup_C9 demo_client) = [OnConnected ''session-1'', OnCallHangup 0] \<and>
   callbacks (handleEvent hangup_C9 demo_client) \<noteq> callbacks demo_client"
proof -
  have "case handler demo_client of None \<Rightarrow> False | Some h \<Rightarrow> True" by code_simp
  then have "handler demo_client \<noteq> None" by (auto split: option.splits)
  moreover have "calls demo_client ''C9'' = None \<and>
   str_field hangup_C9 ''callid'' = ''C9'' \<and> str_field hangup_C9 ''channel'' = '''' \<and>
   callbacks demo_client = [OnConnected ''session-1''] \<and>
   callbacks (handleEvent hangup_C9 demo_client) = [OnConnected ''session-1'', OnCallHangup 0]"
    by code_simp
  ultimately show ?thesis by simp
qed

text \<open>A hangup event for the unknown call \<open>C1\<close> on channel \<open>ch1\<close>.\<close>

theorem hangup_event_for_unknown_call_witness:
  "str_field hangup_C1 ''event'' = ''call_hangup'' \<and>
   calls demo_client (str_field hangup_C1 ''callid'') = None \<and>
   calls demo_client ''ch1:100'' = None \<and>
   calls (handleEvent hangup_C1 demo_client) = calls demo_client \<and>
   callbacks (handleEvent hangup_C1 demo_client) = callbacks demo_client @ [OnCallHangup 0]"
proof -
  have sf: "str_field hangup_C1 ''event'' = ''call_hangup''"
    "str_field hangup_C1 ''callid'' = ''C1''" "str_field hangup_C1 ''channel'' = ''ch1''"
    "str_field hangup_C1 ''uid'' = ''100''"
    by code_simp+
  have n: "calls demo_client ''C1'' = None" "calls demo_client ''ch1:100'' = None"
    "next_addr demo_client = 0"
    by code_simp+
  have "case handler demo_client of None \<Rightarrow> False | Some h \<Rightarrow> True" by code_simp
  then have h: "handler demo_client \<noteq> None" by (auto split: option.splits)
  have a: "calls demo_client (str_field hangup_C1 ''callid'') = None" by (simp add: sf n)
  have b: "str_field hangup_C1 ''channel'' \<noteq> '''' \<and> str_field hangup_C1 ''uid'' \<noteq> '''' \<longrightarrow>
           calls demo_client (str_field hangup_C1 ''channel'' @ '':'' @ str_field hangup_C1 ''uid'') = None"
    by (simp add: sf n)
  from hangup_event_for_unknown_call [OF sf(1) a b] h
  show ?thesis by (simp add: sf n)
qed




text \<open>A \<open>call_incoming\<close> event on a new client, which has no handler.\<close>

theorem no_handler_no_registry_change_witness:
  "handler fresh_client = None \<and>
   handleEvent incoming_C2 fresh_client = fresh_client \<and>
   readLoop_msg (Some incoming_C2) fresh_client = Some fresh_client \<and>
   calls fresh_client ''C2'' = None"
proof -
  have h: "handler fresh_client = None" by (simp add: fresh_client_def NewClient_def)
  have c: "calls fresh_client ''C2'' = None" by code_simp
  have rid: "str_field incoming_C2 ''request_id'' = ''''" by code_simp
  from no_handler_no_registry_change [OF h, of incoming_C2]
  have e: "handleEvent incoming_C2 fresh_client = fresh_client" by blast
  have "readLoop_msg (Some incoming_C2) fresh_client = Some (handleEvent incoming_C2 fresh_client)"
    by (simp add: readLoop_msg_eq rid)
  with e h c show ?thesis by simp
qed

end
